theory Spec2Isabelle
  imports Complex_Main "HOL-Library.Multiset"
begin

section \<open>The trades table (db.js)\<close>

text \<open>
  One row of the table \<^verbatim>\<open>trades\<close> as \<^verbatim>\<open>initDb\<close> creates it. A column declared
  \<^verbatim>\<open>NOT NULL\<close> holds a value, any other column may hold NULL (\<open>None\<close>).
  \<^verbatim>\<open>isLong\<close> and \<^verbatim>\<open>isLimit\<close> are INTEGER columns (0/1), the text columns carry
  decimal strings. The primary key \<^verbatim>\<open>id\<close> is named \<open>id_col\<close> here.
\<close>

record trade_row =
  id_col :: int
  trader :: string
  assetId :: int
  isLong :: int
  isLimit :: int
  leverage :: "int option"
  openPrice :: "int option"
  state :: "int option"
  openTimestamp :: "int option"
  fundingIndex :: "string option"
  closePrice :: "int option"
  lotSize :: "int option"
  closedLotSize :: int
  stopLoss :: int
  takeProfit :: int
  lpLockedCapital :: "string option"
  marginUsdc :: "string option"

subsection \<open>SQL's three-valued logic\<close>

text \<open>
  A comparison with NULL is NULL, \<^verbatim>\<open>AND\<close> and \<^verbatim>\<open>OR\<close> follow Kleene's tables, and a
  \<^verbatim>\<open>WHERE\<close> clause or a \<^verbatim>\<open>CASE WHEN\<close> arm takes a row only when its condition is
  TRUE. A truth value is a \<open>bool option\<close> with \<open>None\<close> for NULL.
\<close>

definition sql_eq :: "int option \<Rightarrow> int option \<Rightarrow> bool option" where
  "sql_eq a b = (case (a, b) of (Some x, Some y) \<Rightarrow> Some (x = y) | _ \<Rightarrow> None)"

definition sql_ne :: "int option \<Rightarrow> int option \<Rightarrow> bool option" where
  "sql_ne a b = (case (a, b) of (Some x, Some y) \<Rightarrow> Some (x \<noteq> y) | _ \<Rightarrow> None)"

definition sql_le :: "int option \<Rightarrow> int option \<Rightarrow> bool option" where
  "sql_le a b = (case (a, b) of (Some x, Some y) \<Rightarrow> Some (x \<le> y) | _ \<Rightarrow> None)"

definition sql_ge :: "int option \<Rightarrow> int option \<Rightarrow> bool option" where
  "sql_ge a b = (case (a, b) of (Some x, Some y) \<Rightarrow> Some (x \<ge> y) | _ \<Rightarrow> None)"

definition sql_and :: "bool option \<Rightarrow> bool option \<Rightarrow> bool option" where
  "sql_and a b =
     (if a = Some False \<or> b = Some False then Some False
      else if a = None \<or> b = None then None
      else Some True)"

definition sql_or :: "bool option \<Rightarrow> bool option \<Rightarrow> bool option" where
  "sql_or a b =
     (if a = Some True \<or> b = Some True then Some True
      else if a = None \<or> b = None then None
      else Some False)"

definition sql_true :: "bool option \<Rightarrow> bool" where
  "sql_true c = (c = Some True)"

subsection \<open>stmt.matchEntry and GET /match/entry\<close>

text \<open>
  The prepared statement has five positional parameters: the asset id and four times
  the market price. Its \<^verbatim>\<open>WHERE\<close> clause, written as in the source.
\<close>

definition matchEntry_where ::
  "int \<Rightarrow> int \<Rightarrow> int \<Rightarrow> int \<Rightarrow> int \<Rightarrow> trade_row \<Rightarrow> bool option" where
  "matchEntry_where p1 p2 p3 p4 p5 r =
     sql_and (sql_eq (Some (assetId r)) (Some p1))
    (sql_and (sql_eq (state r) (Some 0))
      (sql_or
        (sql_and (sql_eq (Some (isLimit r)) (Some 1))
          (sql_or
            (sql_and (sql_eq (Some (isLong r)) (Some 1)) (sql_le (Some p2) (openPrice r)))
            (sql_and (sql_eq (Some (isLong r)) (Some 0)) (sql_ge (Some p3) (openPrice r)))))
        (sql_and (sql_eq (Some (isLimit r)) (Some 0))
          (sql_or
            (sql_and (sql_eq (Some (isLong r)) (Some 1)) (sql_ge (Some p4) (openPrice r)))
            (sql_and (sql_eq (Some (isLong r)) (Some 0)) (sql_le (Some p5) (openPrice r)))))))"

text \<open>\<^verbatim>\<open>CASE WHEN isLimit = 1 THEN 'limit' ELSE 'stop' END AS kind\<close>\<close>

definition matchEntry_kind :: "trade_row \<Rightarrow> string" where
  "matchEntry_kind r =
     (if sql_true (sql_eq (Some (isLimit r)) (Some 1)) then ''limit'' else ''stop'')"

text \<open>The statement run over the table: the selected rows, each as \<open>(id, kind)\<close>.\<close>

definition matchEntry ::
  "trade_row list \<Rightarrow> int \<Rightarrow> int \<Rightarrow> int \<Rightarrow> int \<Rightarrow> int \<Rightarrow> (int \<times> string) list" where
  "matchEntry rows p1 p2 p3 p4 p5 =
     map (\<lambda>r. (id_col r, matchEntry_kind r))
       (filter (\<lambda>r. sql_true (matchEntry_where p1 p2 p3 p4 p5 r)) rows)"

record entry_out =
  limit :: "int list"
  stop :: "int list"

text \<open>
  The loop of the route over the selected rows: \<^verbatim>\<open>out.limit.push\<close> for kind
  \<^verbatim>\<open>"limit"\<close>, \<^verbatim>\<open>out.stop.push\<close> for kind \<^verbatim>\<open>"stop"\<close>, nothing otherwise.
\<close>

fun entry_push :: "entry_out \<Rightarrow> (int \<times> string) list \<Rightarrow> entry_out" where
  "entry_push out [] = out"
| "entry_push out ((i, k) # rs) =
     (if k = ''limit'' then entry_push (out\<lparr>limit := limit out @ [i]\<rparr>) rs
      else if k = ''stop'' then entry_push (out\<lparr>stop := stop out @ [i]\<rparr>) rs
      else entry_push out rs)"

text \<open>
  The route \<^verbatim>\<open>GET /match/entry\<close> after its two query parameters are parsed:
  \<open>assetId\<close> and \<open>marketE6\<close> are the integers that \<^verbatim>\<open>toInt\<close> and
  \<^verbatim>\<open>parseMarketE6\<close> (with \<^verbatim>\<open>unit=e6\<close>) return.
\<close>

definition match_entry :: "trade_row list \<Rightarrow> int \<Rightarrow> int \<Rightarrow> entry_out" where
  "match_entry rows a marketE6 =
     entry_push \<lparr>limit = [], stop = []\<rparr> (matchEntry rows a marketE6 marketE6 marketE6 marketE6)"

subsection \<open>stmt.matchExits and GET /match/exits\<close>

text \<open>The stop-loss and the take-profit condition, as both the \<^verbatim>\<open>CASE\<close> and the
  \<^verbatim>\<open>WHERE\<close> clause of the statement write them, each with its own two parameters.\<close>

definition sl_cond :: "int \<Rightarrow> int \<Rightarrow> trade_row \<Rightarrow> bool option" where
  "sl_cond q1 q2 r =
     sql_and (sql_ne (Some (stopLoss r)) (Some 0))
       (sql_or
         (sql_and (sql_eq (Some (isLong r)) (Some 1)) (sql_le (Some q1) (Some (stopLoss r))))
         (sql_and (sql_eq (Some (isLong r)) (Some 0)) (sql_ge (Some q2) (Some (stopLoss r)))))"

definition tp_cond :: "int \<Rightarrow> int \<Rightarrow> trade_row \<Rightarrow> bool option" where
  "tp_cond q1 q2 r =
     sql_and (sql_ne (Some (takeProfit r)) (Some 0))
       (sql_or
         (sql_and (sql_eq (Some (isLong r)) (Some 1)) (sql_ge (Some q1) (Some (takeProfit r))))
         (sql_and (sql_eq (Some (isLong r)) (Some 0)) (sql_le (Some q2) (Some (takeProfit r)))))"

text \<open>The \<^verbatim>\<open>CASE\<close> expression: the first arm whose condition is TRUE, else NULL.\<close>

definition matchExits_kind :: "int \<Rightarrow> int \<Rightarrow> int \<Rightarrow> int \<Rightarrow> trade_row \<Rightarrow> string option" where
  "matchExits_kind p1 p2 p3 p4 r =
     (if sql_true (sl_cond p1 p2 r) then Some ''stopLoss''
      else if sql_true (tp_cond p3 p4 r) then Some ''takeProfit''
      else None)"

definition matchExits_where ::
  "int \<Rightarrow> int \<Rightarrow> int \<Rightarrow> int \<Rightarrow> int \<Rightarrow> trade_row \<Rightarrow> bool option" where
  "matchExits_where p5 p6 p7 p8 p9 r =
     sql_and (sql_eq (Some (assetId r)) (Some p5))
    (sql_and (sql_eq (state r) (Some 1))
      (sql_or (sl_cond p6 p7 r) (tp_cond p8 p9 r)))"

definition matchExits ::
  "trade_row list \<Rightarrow> int \<Rightarrow> int \<Rightarrow> int \<Rightarrow> int \<Rightarrow> int \<Rightarrow> int \<Rightarrow> int \<Rightarrow> int \<Rightarrow> int
     \<Rightarrow> (int \<times> string option) list" where
  "matchExits rows p1 p2 p3 p4 p5 p6 p7 p8 p9 =
     map (\<lambda>r. (id_col r, matchExits_kind p1 p2 p3 p4 r))
       (filter (\<lambda>r. sql_true (matchExits_where p5 p6 p7 p8 p9 r)) rows)"

record exits_out =
  stopLoss_ids :: "int list"
  takeProfit_ids :: "int list"

fun exits_push :: "exits_out \<Rightarrow> (int \<times> string option) list \<Rightarrow> exits_out" where
  "exits_push out [] = out"
| "exits_push out ((i, k) # rs) =
     (if k = Some ''stopLoss''
        then exits_push (out\<lparr>stopLoss_ids := stopLoss_ids out @ [i]\<rparr>) rs
      else if k = Some ''takeProfit''
        then exits_push (out\<lparr>takeProfit_ids := takeProfit_ids out @ [i]\<rparr>) rs
      else exits_push out rs)"

text \<open>The route \<^verbatim>\<open>GET /match/exits\<close>: the market price four times, the asset id,
  the market price four times.\<close>

definition match_exits :: "trade_row list \<Rightarrow> int \<Rightarrow> int \<Rightarrow> exits_out" where
  "match_exits rows a marketE6 =
     exits_push \<lparr>stopLoss_ids = [], takeProfit_ids = []\<rparr>
       (matchExits rows marketE6 marketE6 marketE6 marketE6 a marketE6 marketE6 marketE6 marketE6)"

section \<open>JavaScript strings, BigInt and decimalToE6 (executor.multi.js)\<close>

text \<open>
  A JavaScript string is modelled as a \<open>string\<close> of code units below 256. The white
  space that \<^verbatim>\<open>String.prototype.trim\<close> and the parsers of \<^verbatim>\<open>BigInt\<close> and
  \<^verbatim>\<open>Number\<close> strip is then TAB, LF, VT, FF, CR, SPACE and NBSP.
\<close>

datatype js_error = SyntaxError | Error string

definition is_ws :: "char \<Rightarrow> bool" where
  "is_ws c = ((of_char c :: nat) \<in> {9, 10, 11, 12, 13, 32, 160})"

definition trim :: "string \<Rightarrow> string" where
  "trim s = rev (dropWhile is_ws (rev (dropWhile is_ws s)))"

definition is_digit :: "char \<Rightarrow> bool" where
  "is_digit c = (48 \<le> (of_char c :: nat) \<and> (of_char c :: nat) \<le> 57)"

text \<open>The value of a digit in a given radix: \<^verbatim>\<open>0-9\<close>, \<^verbatim>\<open>a-z\<close>, \<^verbatim>\<open>A-Z\<close>.\<close>

definition digit_of :: "nat \<Rightarrow> char \<Rightarrow> nat option" where
  "digit_of radix c =
     (let n = (of_char c :: nat);
          v = (if 48 \<le> n \<and> n \<le> 57 then Some (n - 48)
               else if 97 \<le> n \<and> n \<le> 122 then Some (n - 87)
               else if 65 \<le> n \<and> n \<le> 90 then Some (n - 55)
               else None)
      in case v of None \<Rightarrow> None | Some d \<Rightarrow> if d < radix then Some d else None)"

text \<open>A non-empty run of digits in a radix, read most significant digit first.\<close>

fun parse_digits :: "nat \<Rightarrow> int \<Rightarrow> string \<Rightarrow> int option" where
  "parse_digits radix acc [] = Some acc"
| "parse_digits radix acc (c # cs) =
     (case digit_of radix c of
        None \<Rightarrow> None
      | Some d \<Rightarrow> parse_digits radix (acc * int radix + int d) cs)"

definition parse_radix :: "nat \<Rightarrow> string \<Rightarrow> int option" where
  "parse_radix radix s = (if s = [] then None else parse_digits radix 0 s)"

text \<open>
  \<^verbatim>\<open>BigInt(string)\<close> (StringToBigInt): white space is stripped, the empty string is
  \<open>0\<close>, a prefix \<^verbatim>\<open>0x\<close>, \<^verbatim>\<open>0o\<close> or \<^verbatim>\<open>0b\<close> (either case) selects the radix and
  takes no sign, a decimal literal takes an optional sign; anything else throws a
  SyntaxError, here \<open>None\<close>.
\<close>

definition signed_decimal :: "string \<Rightarrow> int option" where
  "signed_decimal t =
     (case t of
        [] \<Rightarrow> None
      | c # ds \<Rightarrow>
          if c = CHR ''+'' then parse_radix 10 ds
          else if c = CHR ''-'' then map_option uminus (parse_radix 10 ds)
          else parse_radix 10 t)"

definition js_BigInt :: "string \<Rightarrow> int option" where
  "js_BigInt s =
     (let t = trim s in
      if t = [] then Some 0
      else case t of
        c1 # c2 # ds \<Rightarrow>
          if c1 = CHR ''0'' \<and> (c2 = CHR ''x'' \<or> c2 = CHR ''X'') then parse_radix 16 ds
          else if c1 = CHR ''0'' \<and> (c2 = CHR ''o'' \<or> c2 = CHR ''O'') then parse_radix 8 ds
          else if c1 = CHR ''0'' \<and> (c2 = CHR ''b'' \<or> c2 = CHR ''B'') then parse_radix 2 ds
          else signed_decimal t
      | _ \<Rightarrow> signed_decimal t)"

text \<open>
  \<^verbatim>\<open>Number(c)\<close> for a string of one character: a digit is its value, white space is
  \<open>0\<close>, anything else is NaN (\<open>None\<close>).
\<close>

definition js_Number_char :: "char \<Rightarrow> nat option" where
  "js_Number_char c = (if is_ws c then Some 0 else digit_of 10 c)"

text \<open>\<^verbatim>\<open>s.split(".")\<close>: the pieces between the separators, at least one piece.\<close>

fun split_on :: "char \<Rightarrow> string \<Rightarrow> string list" where
  "split_on sep [] = [[]]"
| "split_on sep (c # cs) =
     (if c = sep then [] # split_on sep cs
      else case split_on sep cs of
             [] \<Rightarrow> [[c]]
           | p # ps \<Rightarrow> (c # p) # ps)"

text \<open>
  \<^verbatim>\<open>s.replace(/^0+(?=\d)/, "")\<close>: the longest run of leading zeros that is followed
  by a digit is removed; the regular expression backtracks by one zero when the run
  is followed by no digit.
\<close>

definition strip_leading_zeros :: "string \<Rightarrow> string" where
  "strip_leading_zeros s =
     (let z = takeWhile (\<lambda>c. c = CHR ''0'') s;
          rest = dropWhile (\<lambda>c. c = CHR ''0'') s
      in if z = [] then s
         else if rest \<noteq> [] \<and> is_digit (hd rest) then rest
         else if 2 \<le> length z then CHR ''0'' # rest
         else s)"

text \<open>
  \<^verbatim>\<open>Number(bi)\<close> for a BigInt: the double nearest to \<open>bi\<close>, ties going to the even
  significand, and an infinity when that double does not exist. Every integer of
  magnitude up to \<open>2\<^sup>5\<^sup>3\<close> is a double; a larger magnitude \<open>m\<close> of \<open>n\<close> bits keeps its
  top 53 bits \<open>q\<close>, rounded up when the \<open>n - 53\<close> bits dropped are more than half a
  unit, or exactly half and \<open>q\<close> is odd. A finite result is again an integer.
\<close>

datatype js_number = Num int | PosInfinity | NegInfinity

function bitlen :: "nat \<Rightarrow> nat" where
  "bitlen m = (if m = 0 then 0 else Suc (bitlen (m div 2)))"
  by pat_completeness auto
termination
  by (relation "measure id") auto

definition round_to_double :: "nat \<Rightarrow> nat option" where
  "round_to_double m =
     (if m \<le> 2 ^ 53 then Some m
      else
        let e = bitlen m - 53;
            q = m div 2 ^ e;
            r = m mod 2 ^ e;
            half = 2 ^ (e - 1);
            q' = (if r > half \<or> (r = half \<and> odd q) then q + 1 else q);
            v = q' * 2 ^ e
        in if v \<ge> 2 ^ 1024 then None else Some v)"

definition js_Number_of_BigInt :: "int \<Rightarrow> js_number" where
  "js_Number_of_BigInt bi =
     (case round_to_double (nat \<bar>bi\<bar>) of
        None \<Rightarrow> if bi < 0 then NegInfinity else PosInfinity
      | Some v \<Rightarrow> Num (if bi < 0 then - int v else int v))"

text \<open>
  \<^verbatim>\<open>decimalToE6(value)\<close>. The argument is \<open>None\<close> for \<^verbatim>\<open>null\<close> or \<^verbatim>\<open>undefined\<close>
  and otherwise the string \<^verbatim>\<open>String(value)\<close>. The result is \<open>Inr None\<close> for
  \<^verbatim>\<open>null\<close>, \<open>Inl SyntaxError\<close> when a \<^verbatim>\<open>BigInt\<close> conversion throws, and otherwise
  the number \<^verbatim>\<open>Number(bi)\<close>.
\<close>

definition decimalToE6 :: "string option \<Rightarrow> js_error + js_number option" where
  "decimalToE6 v =
     (case v of
        None \<Rightarrow> Inr None
      | Some s0 \<Rightarrow>
          let s = trim s0 in
          if s = [] then Inr None
          else
            let neg = (take 1 s = ''-'');
                t = (if neg then drop 1 s else s);
                parts = split_on CHR ''.'' t;
                p0 = (case parts of [] \<Rightarrow> [] | p # _ \<Rightarrow> p);
                intPart = (if p0 \<noteq> [] then strip_leading_zeros p0 else ''0'');
                fracRaw = (case parts of _ # p1 # _ \<Rightarrow> p1 | _ \<Rightarrow> []);
                fracPadded = take 7 (fracRaw @ ''0000000'');
                frac6 = take 6 fracPadded;
                d7 = js_Number_char (fracPadded ! 6)
            in case js_BigInt (if intPart \<noteq> [] then intPart else ''0'') of
                 None \<Rightarrow> Inl SyntaxError
               | Some ip \<Rightarrow>
                   (case js_BigInt (if frac6 \<noteq> [] then frac6 else ''0'') of
                      None \<Rightarrow> Inl SyntaxError
                    | Some fp \<Rightarrow>
                        let bi = ip * 1000000 + fp;
                            bi = (if (case d7 of None \<Rightarrow> False | Some d \<Rightarrow> 5 \<le> d)
                                  then bi + 1 else bi);
                            bi = (if neg then - bi else bi)
                        in Inr (Some (js_Number_of_BigInt bi))))"

section \<open>The proof fetcher (executor/proofClient.js)\<close>

text \<open>
  \<^verbatim>\<open>Array.prototype.join\<close> turns each number into its decimal text. The asset
  indices are integers, so the text is the decimal digits with a minus sign for a
  negative number.
\<close>

definition digit_char :: "nat \<Rightarrow> char" where
  "digit_char d = ''0123456789'' ! d"

function string_of_nat :: "nat \<Rightarrow> string" where
  "string_of_nat n =
     (if n < 10 then [digit_char n]
      else string_of_nat (n div 10) @ [digit_char (n mod 10)])"
  by pat_completeness auto
termination
  by (relation "measure id") auto

definition string_of_int :: "int \<Rightarrow> string" where
  "string_of_int i = (if i < 0 then CHR ''-'' # string_of_nat (nat (- i)) else string_of_nat (nat i))"

fun join :: "string \<Rightarrow> string list \<Rightarrow> string" where
  "join sep [] = []"
| "join sep [x] = x"
| "join sep (x # y # ys) = x @ sep @ join sep (y # ys)"

text \<open>\<^verbatim>\<open>[...pairs].sort((a, b) => a - b).join(",")\<close>: a copy of the list in
  ascending numeric order, joined with commas.\<close>

definition makeKey :: "int list \<Rightarrow> string" where
  "makeKey pairs = join '','' (map string_of_int (sort pairs))"

definition normalizeProof :: "string \<Rightarrow> string" where
  "normalizeProof s = (if take 2 s = ''0x'' then s else ''0x'' @ s)"

record cache_entry =
  proof_str :: string
  ts :: int

text \<open>The field \<^verbatim>\<open>proof\<close> of a cache entry is named \<open>proof_str\<close>.\<close>

type_synonym proof_cache = "string \<rightharpoonup> cache_entry"

text \<open>
  \<^verbatim>\<open>client.getProof\<close> posts to the proof service. The service is a parameter
  \<open>net\<close>: its answer to a list of pair indexes is the extracted \<^verbatim>\<open>proof_bytes\<close> or
  the last error of the endpoint cascade. An empty list is refused before any
  request is sent. The second component is the list of requests that went out.
\<close>

definition getProof ::
  "(int list \<Rightarrow> js_error + string) \<Rightarrow> int list \<Rightarrow> (js_error + string) \<times> int list list" where
  "getProof net pair_indexes =
     (if pair_indexes = [] then (Inl (Error ''pair_indexes must be a non-empty array''), [])
      else (net pair_indexes, [pair_indexes]))"

text \<open>
  \<^verbatim>\<open>fetchProof(pairIndexes)\<close> on the module's cache at clock reading \<open>now\<close>: the
  result, the cache afterwards and the requests sent to the service.
\<close>

definition fetchProof ::
  "(int list \<Rightarrow> js_error + string) \<Rightarrow> proof_cache \<Rightarrow> int \<Rightarrow> int list
     \<Rightarrow> (js_error + string) \<times> proof_cache \<times> int list list" where
  "fetchProof net cache now pairIndexes =
     (let key = makeKey pairIndexes in
      case (case cache key of
              Some hit \<Rightarrow> if now - ts hit < 1000 then Some (proof_str hit) else None
            | None \<Rightarrow> None) of
        Some p \<Rightarrow> (Inr p, cache, [])
      | None \<Rightarrow>
          (case getProof net pairIndexes of
             (Inl e, sent) \<Rightarrow> (Inl e, cache, sent)
           | (Inr proof_bytes, sent) \<Rightarrow>
               let p = normalizeProof proof_bytes
               in (Inr p, cache(key \<mapsto> \<lparr>proof_str = p, ts = now\<rparr>), sent)))"

section \<open>The private write routes (write.routes.js)\<close>

text \<open>
  The table as the routes see it: at most one row for each primary key.
\<close>

type_synonym store = "int \<rightharpoonup> trade_row"

text \<open>
  A request value after \<^verbatim>\<open>Number(v)\<close>: a finite number or not (NaN, an infinity).
  A field of the request is \<open>None\<close> when it is \<^verbatim>\<open>undefined\<close> or \<^verbatim>\<open>null\<close>, which
  the routes never tell apart.
\<close>

datatype jnum = Finite rat | NotFinite

text \<open>\<^verbatim>\<open>toBoolInt\<close> takes \<^verbatim>\<open>true, 1, "1", "true"\<close> to 1, \<^verbatim>\<open>false, 0, "0", "false"\<close>
  to 0 and throws on every other value.\<close>

datatype jbool = IsTrue | IsFalse | NotBool

text \<open>An exception with its optional \<^verbatim>\<open>status\<close> property and its message.\<close>

datatype exn = Exn "nat option" string

definition bindE :: "exn + 'a \<Rightarrow> ('a \<Rightarrow> exn + 'b) \<Rightarrow> exn + 'b" where
  "bindE x f = (case x of Inl e \<Rightarrow> Inl e | Inr a \<Rightarrow> f a)"

definition math_trunc :: "rat \<Rightarrow> int" where
  "math_trunc q = (if 0 \<le> q then \<lfloor>q\<rfloor> else \<lceil>q\<rceil>)"

definition toInt :: "jnum option \<Rightarrow> string \<Rightarrow> exn + int" where
  "toInt v name =
     (case v of
        None \<Rightarrow> Inl (Exn None (''Missing '' @ name))
      | Some NotFinite \<Rightarrow> Inl (Exn None (''Invalid '' @ name))
      | Some (Finite q) \<Rightarrow> Inr (math_trunc q))"

text \<open>\<^verbatim>\<open>v === undefined || v === null ? null : toInt(v, name)\<close>\<close>

definition toInt_or_null :: "jnum option \<Rightarrow> string \<Rightarrow> exn + int option" where
  "toInt_or_null v name =
     (case v of None \<Rightarrow> Inr None | Some _ \<Rightarrow> bindE (toInt v name) (\<lambda>n. Inr (Some n)))"

text \<open>\<^verbatim>\<open>v === undefined || v === null ? 0 : toInt(v, name)\<close>\<close>

definition toInt_or_zero :: "jnum option \<Rightarrow> string \<Rightarrow> exn + int" where
  "toInt_or_zero v name = (case v of None \<Rightarrow> Inr 0 | Some _ \<Rightarrow> toInt v name)"

definition toBoolInt :: "jbool \<Rightarrow> string \<Rightarrow> exn + int" where
  "toBoolInt v name =
     (case v of
        IsTrue \<Rightarrow> Inr 1
      | IsFalse \<Rightarrow> Inr 0
      | NotBool \<Rightarrow> Inl (Exn None (''Invalid '' @ name @ '' (expected boolean)'')))"

definition to_lower :: "char \<Rightarrow> char" where
  "to_lower c =
     (let n = (of_char c :: nat)
      in if (65 \<le> n \<and> n \<le> 90) \<or> (192 \<le> n \<and> n \<le> 222 \<and> n \<noteq> 215) then char_of (n + 32) else c)"

text \<open>\<^verbatim>\<open>normalizeAddress\<close>: the empty string for a value that is not a string
  (\<open>None\<close>), else the trimmed text in lower case.\<close>

definition normalizeAddress :: "string option \<Rightarrow> string" where
  "normalizeAddress addr = (case addr of None \<Rightarrow> [] | Some a \<Rightarrow> map to_lower (trim a))"

text \<open>The body of a request. The text fields hold \<^verbatim>\<open>String(v)\<close> of the value sent.\<close>

record body =
  b_trader :: "string option"
  b_assetId :: "jnum option"
  b_isLong :: jbool
  b_isLimit :: jbool
  b_leverage :: "jnum option"
  b_openPrice :: "jnum option"
  b_state :: "jnum option"
  b_openTimestamp :: "jnum option"
  b_fundingIndex :: "string option"
  b_closePrice :: "jnum option"
  b_lotSize :: "jnum option"
  b_closedLotSize :: "jnum option"
  b_stopLoss :: "jnum option"
  b_takeProfit :: "jnum option"
  b_lpLockedCapital :: "string option"
  b_marginUsdc :: "string option"

text \<open>The answer of a route: the HTTP status, the \<^verbatim>\<open>ok\<close> flag, the error message
  and the trade returned.\<close>

record response =
  r_status :: nat
  r_ok :: bool
  r_error :: "string option"
  r_trade :: "trade_row option"

definition fail :: "nat \<Rightarrow> string \<Rightarrow> response" where
  "fail st msg = \<lparr>r_status = st, r_ok = False, r_error = Some msg, r_trade = None\<rparr>"

text \<open>The \<^verbatim>\<open>catch\<close> block of every route:
  \<^verbatim>\<open>res.status(e.status || 400).json({ ok: false, error: e.message || "Bad request" })\<close>\<close>

definition caught :: "exn \<Rightarrow> response" where
  "caught e =
     (case e of Exn st msg \<Rightarrow>
        fail (case st of None \<Rightarrow> 400 | Some s \<Rightarrow> if s = 0 then 400 else s)
             (if msg = [] then ''Bad request'' else msg))"

definition succeed :: "trade_row option \<Rightarrow> response" where
  "succeed t = \<lparr>r_status = 200, r_ok = True, r_error = None, r_trade = t\<rparr>"

subsection \<open>PUT /trade/:id\<close>

text \<open>The payload object, its fields computed in the order of the source, so that the
  first field that throws decides the exception.\<close>

definition put_payload :: "int \<Rightarrow> body \<Rightarrow> exn + trade_row" where
  "put_payload i b =
     bindE (toInt (b_assetId b) ''assetId'') (\<lambda>assetId'.
     bindE (toBoolInt (b_isLong b) ''isLong'') (\<lambda>isLong'.
     bindE (toBoolInt (b_isLimit b) ''isLimit'') (\<lambda>isLimit'.
     bindE (toInt_or_null (b_leverage b) ''leverage'') (\<lambda>leverage'.
     bindE (toInt_or_null (b_openPrice b) ''openPrice'') (\<lambda>openPrice'.
     bindE (toInt (b_state b) ''state'') (\<lambda>state'.
     bindE (toInt_or_null (b_openTimestamp b) ''openTimestamp'') (\<lambda>openTimestamp'.
     bindE (toInt_or_zero (b_closePrice b) ''closePrice'') (\<lambda>closePrice'.
     bindE (toInt_or_null (b_lotSize b) ''lotSize'') (\<lambda>lotSize'.
     bindE (toInt_or_zero (b_closedLotSize b) ''closedLotSize'') (\<lambda>closedLotSize'.
     bindE (toInt_or_zero (b_stopLoss b) ''stopLoss'') (\<lambda>stopLoss'.
     bindE (toInt_or_zero (b_takeProfit b) ''takeProfit'') (\<lambda>takeProfit'.
     Inr \<lparr>id_col = i, trader = normalizeAddress (b_trader b), assetId = assetId',
          isLong = isLong', isLimit = isLimit', leverage = leverage',
          openPrice = openPrice', state = Some state', openTimestamp = openTimestamp',
          fundingIndex = b_fundingIndex b, closePrice = Some closePrice',
          lotSize = lotSize', closedLotSize = closedLotSize', stopLoss = stopLoss',
          takeProfit = takeProfit', lpLockedCapital = b_lpLockedCapital b,
          marginUsdc = b_marginUsdc b\<rparr>))))))))))))"

text \<open>\<^verbatim>\<open>tx.upsertTrade\<close>: insert the row, or replace every column of the row with
  this id, and read the row back.\<close>

definition upsertTrade :: "store \<Rightarrow> trade_row \<Rightarrow> store \<times> trade_row option" where
  "upsertTrade st payload =
     (let st' = st(id_col payload \<mapsto> payload) in (st', st' (id_col payload)))"

definition put_trade :: "store \<Rightarrow> jnum option \<Rightarrow> body \<Rightarrow> store \<times> response" where
  "put_trade st id_param b =
     (case bindE (toInt id_param ''id'') (\<lambda>i. put_payload i b) of
        Inl e \<Rightarrow> (st, caught e)
      | Inr payload \<Rightarrow>
          if \<not> (take 2 (trader payload) = ''0x'') \<or> length (trader payload) < 10
            then (st, fail 400 ''Invalid trader address'')
          else if state payload = Some 2 \<and>
                  (closePrice payload = None \<or> closePrice payload = Some 0)
            then (st, fail 400 ''state=2 requires closePrice != 0'')
          else case upsertTrade st payload of (st', t) \<Rightarrow> (st', succeed t))"

subsection \<open>PATCH /trade/:id\<close>

record patch =
  p_id :: int
  p_state :: "int option"
  p_closePrice :: "int option"
  p_stopLoss :: "int option"
  p_takeProfit :: "int option"
  p_closedLotSize :: "int option"
  p_marginUsdc :: "string option"
  p_lpLockedCapital :: "string option"
  p_fundingIndex :: "string option"

definition requireTradeExists :: "store \<Rightarrow> int \<Rightarrow> exn + trade_row" where
  "requireTradeExists st i =
     (case st i of None \<Rightarrow> Inl (Exn (Some 404) ''Trade not found'') | Some row \<Rightarrow> Inr row)"

definition patch_of_body :: "int \<Rightarrow> body \<Rightarrow> exn + patch" where
  "patch_of_body i b =
     bindE (toInt_or_null (b_state b) ''state'') (\<lambda>state'.
     bindE (toInt_or_null (b_closePrice b) ''closePrice'') (\<lambda>closePrice'.
     bindE (toInt_or_null (b_stopLoss b) ''stopLoss'') (\<lambda>stopLoss'.
     bindE (toInt_or_null (b_takeProfit b) ''takeProfit'') (\<lambda>takeProfit'.
     bindE (toInt_or_null (b_closedLotSize b) ''closedLotSize'') (\<lambda>closedLotSize'.
     Inr \<lparr>p_id = i, p_state = state', p_closePrice = closePrice', p_stopLoss = stopLoss',
          p_takeProfit = takeProfit', p_closedLotSize = closedLotSize',
          p_marginUsdc = b_marginUsdc b, p_lpLockedCapital = b_lpLockedCapital b,
          p_fundingIndex = b_fundingIndex b\<rparr>)))))"

text \<open>\<^verbatim>\<open>COALESCE(@x, x)\<close> on a nullable column and on a \<^verbatim>\<open>NOT NULL\<close> column.\<close>

definition coalesce :: "'a option \<Rightarrow> 'a option \<Rightarrow> 'a option" where
  "coalesce new old = (case new of Some v \<Rightarrow> Some v | None \<Rightarrow> old)"

definition coalesce_nn :: "'a option \<Rightarrow> 'a \<Rightarrow> 'a" where
  "coalesce_nn new old = (case new of Some v \<Rightarrow> v | None \<Rightarrow> old)"

text \<open>\<^verbatim>\<open>tx.patchTrade\<close>: the \<^verbatim>\<open>UPDATE\<close> of \<^verbatim>\<open>stmt.patchTrade\<close>; \<^verbatim>\<open>null\<close> when no
  row has the id, else the row read back.\<close>

definition patchTrade :: "store \<Rightarrow> patch \<Rightarrow> store \<times> trade_row option" where
  "patchTrade st p =
     (case st (p_id p) of
        None \<Rightarrow> (st, None)
      | Some row \<Rightarrow>
          let row' = row\<lparr>state := coalesce (p_state p) (state row),
                         closePrice := coalesce (p_closePrice p) (closePrice row),
                         stopLoss := coalesce_nn (p_stopLoss p) (stopLoss row),
                         takeProfit := coalesce_nn (p_takeProfit p) (takeProfit row),
                         closedLotSize := coalesce_nn (p_closedLotSize p) (closedLotSize row),
                         marginUsdc := coalesce (p_marginUsdc p) (marginUsdc row),
                         lpLockedCapital := coalesce (p_lpLockedCapital p) (lpLockedCapital row),
                         fundingIndex := coalesce (p_fundingIndex p) (fundingIndex row)\<rparr>
          in (st(p_id p \<mapsto> row'), Some row'))"

text \<open>The closing check of the route and the patch that reaches \<^verbatim>\<open>tx.patchTrade\<close>:
  \<^verbatim>\<open>patch.closePrice ?? existing.closePrice\<close> must be a number other than 0, and a
  missing \<^verbatim>\<open>closedLotSize\<close> becomes \<^verbatim>\<open>existing.lotSize\<close>.\<close>

definition closing_patch :: "trade_row \<Rightarrow> patch \<Rightarrow> response + patch" where
  "closing_patch existing p =
     (if p_state p = Some 2 then
        (let close = (case p_closePrice p of Some c \<Rightarrow> Some c | None \<Rightarrow> closePrice existing)
         in if close = None \<or> close = Some 0
              then Inl (fail 400 ''state=2 requires closePrice != 0'')
            else if p_closedLotSize p = None
              then Inr (p\<lparr>p_closedLotSize := lotSize existing\<rparr>)
            else Inr p)
      else Inr p)"

definition patch_trade :: "store \<Rightarrow> jnum option \<Rightarrow> body \<Rightarrow> store \<times> response" where
  "patch_trade st id_param b =
     (case bindE (toInt id_param ''id'') (\<lambda>i.
           bindE (requireTradeExists st i) (\<lambda>existing.
           bindE (patch_of_body i b) (\<lambda>p. Inr (existing, p)))) of
        Inl e \<Rightarrow> (st, caught e)
      | Inr (existing, p) \<Rightarrow>
          (case closing_patch existing p of
             Inl r \<Rightarrow> (st, r)
           | Inr p' \<Rightarrow> (case patchTrade st p' of (st', t) \<Rightarrow> (st', succeed t))))"

section \<open>The wallet pool (executor/walletPool.js)\<close>

text \<open>
  A wallet is modelled by the private key it is built from, of any type \<open>'w\<close>.
  \<open>busyUntil\<close> holds, for each wallet, the clock reading from which it is free again.
\<close>

record 'w WalletPool =
  wallets :: "'w list"
  perWalletDelayMs :: int
  nextIndex :: nat
  busyUntil :: "int list"

text \<open>The constructor throws on an empty key list.\<close>

definition new_WalletPool :: "'w list \<Rightarrow> int \<Rightarrow> js_error + 'w WalletPool" where
  "new_WalletPool privateKeys delay =
     (if length privateKeys = 0 then Inl (Error ''No PRIVATE_KEYS provided'')
      else Inr \<lparr>wallets = privateKeys, perWalletDelayMs = delay, nextIndex = 0,
                busyUntil = replicate (length privateKeys) 0\<rparr>)"

text \<open>
  The \<^verbatim>\<open>for\<close> loop of \<^verbatim>\<open>acquire\<close> from \<open>tries\<close> on: the index of the first wallet in
  round-robin order that is free at \<open>now\<close>. A read of \<^verbatim>\<open>busyUntil\<close> beyond its
  length is \<^verbatim>\<open>undefined\<close> in JavaScript, and \<^verbatim>\<open>now >= undefined\<close> is false.
\<close>

function scan :: "'w WalletPool \<Rightarrow> int \<Rightarrow> nat \<Rightarrow> nat option" where
  "scan p now tries =
     (if tries < length (wallets p) then
        (let i = (nextIndex p + tries) mod length (wallets p)
         in if i < length (busyUntil p) \<and> now \<ge> busyUntil p ! i then Some i
            else scan p now (tries + 1))
      else None)"
  by pat_completeness auto
termination
  by (relation "measure (\<lambda>(p, now, tries). length (wallets p) - tries)") auto

text \<open>\<^verbatim>\<open>Math.min(...busyUntil)\<close>; of no numbers it is \<^verbatim>\<open>Infinity\<close>, here \<open>None\<close>.\<close>

definition earliest :: "int list \<Rightarrow> int option" where
  "earliest xs = (case xs of [] \<Rightarrow> None | x # r \<Rightarrow> Some (fold min r x))"

text \<open>
  One pass of the \<^verbatim>\<open>while\<close> loop at clock reading \<open>now\<close>: a wallet is returned and
  the pool updated, or the caller goes to sleep for \<^verbatim>\<open>waitMs\<close> (\<open>None\<close> for
  \<^verbatim>\<open>Infinity\<close>) and the pool is as before.
\<close>

datatype 'w outcome = Returned 'w | Sleep "int option"

definition acquire_step :: "'w WalletPool \<Rightarrow> int \<Rightarrow> 'w outcome \<times> 'w WalletPool" where
  "acquire_step p now =
     (case scan p now 0 of
        Some i \<Rightarrow>
          (Returned (wallets p ! i),
           p\<lparr>nextIndex := (i + 1) mod length (wallets p),
             busyUntil := (busyUntil p)[i := now + perWalletDelayMs p]\<rparr>)
      | None \<Rightarrow>
          (Sleep (case earliest (busyUntil p) of
                    None \<Rightarrow> None
                  | Some e \<Rightarrow> Some (max 10 (e - now))), p))"

text \<open>
  One call of \<^verbatim>\<open>acquire\<close>: passes of the loop at the successive clock readings it
  takes, until a wallet is returned. With no reading left the call has not returned.
\<close>

fun acquire :: "'w WalletPool \<Rightarrow> int list \<Rightarrow> ('w \<times> 'w WalletPool) option" where
  "acquire p [] = None"
| "acquire p (now # later) =
     (case acquire_step p now of
        (Returned w, p') \<Rightarrow> Some (w, p')
      | (Sleep _, p') \<Rightarrow> acquire p' later)"

text \<open>
  Calls of \<^verbatim>\<open>acquire\<close> that run at the same time interleave only at the \<^verbatim>\<open>await\<close>
  of the sleep, so the pool sees a sequence of whole passes, each at its own clock
  reading, whichever call a pass belongs to. \<open>passes\<close> runs such a sequence and
  gives the outcome of each pass.
\<close>

fun passes :: "'w WalletPool \<Rightarrow> int list \<Rightarrow> 'w outcome list" where
  "passes p [] = []"
| "passes p (now # later) =
     (case acquire_step p now of (out, p') \<Rightarrow> out # passes p' later)"

section \<open>Reconciliation (sync.js)\<close>

text \<open>A trade as \<^verbatim>\<open>getTradesFromList\<close> returns it from the ledger.\<close>

record chain_trade =
  c_trader :: string
  c_assetId :: int
  c_isLong :: bool
  c_isLimit :: bool
  c_leverage :: int
  c_openPrice :: int
  c_state :: int
  c_openTimestamp :: int
  c_fundingIndex :: string
  c_closePrice :: int
  c_lotSize :: int
  c_closedLotSize :: int
  c_stopLoss :: int
  c_takeProfit :: int
  c_lpLockedCapital :: string
  c_marginUsdc :: string

text \<open>\<^verbatim>\<open>tradeToPayload\<close>: the body of one trade for \<^verbatim>\<open>batchUpsert\<close>, written with the
  columns it fills.\<close>

definition tradeToPayload :: "int \<Rightarrow> chain_trade \<Rightarrow> trade_row" where
  "tradeToPayload i t =
     \<lparr>id_col = i, trader = map to_lower (c_trader t), assetId = c_assetId t,
      isLong = (if c_isLong t then 1 else 0), isLimit = (if c_isLimit t then 1 else 0),
      leverage = Some (c_leverage t), openPrice = Some (c_openPrice t),
      state = Some (c_state t), openTimestamp = Some (c_openTimestamp t),
      fundingIndex = Some (c_fundingIndex t), closePrice = Some (c_closePrice t),
      lotSize = Some (c_lotSize t), closedLotSize = c_closedLotSize t,
      stopLoss = c_stopLoss t, takeProfit = c_takeProfit t,
      lpLockedCapital = Some (c_lpLockedCapital t), marginUsdc = Some (c_marginUsdc t)\<rparr>"

text \<open>The row that \<^verbatim>\<open>dbReaders.getRow\<close> selects.\<close>

record db_row =
  row_id :: int
  row_state :: "int option"
  row_stopLoss :: int
  row_takeProfit :: int

text \<open>A patch of \<^verbatim>\<open>batchPatchStates\<close>.\<close>

record state_patch =
  sp_id :: int
  sp_state :: "int option"

text \<open>
  What a run talks to: the two view functions of the ledger contract, the two
  endpoints of the write API (their answer is the count in the reply, if any) and
  the two readers of the local database. Each may answer differently from call to
  call, so each is a function of its argument only within one use.
\<close>

record sync_env =
  getTradesFromList :: "int list \<Rightarrow> js_error + chain_trade list"
  getTradeStatesFromList :: "int list \<Rightarrow> js_error + int list"
  batchUpsert :: "trade_row list \<Rightarrow> js_error + nat option"
  batchPatchStates :: "state_patch list \<Rightarrow> js_error + nat option"
  db_exists :: "int \<Rightarrow> bool"
  db_getRow :: "int \<Rightarrow> db_row option"

text \<open>The calls a run makes to the ledger and to the write API, in order.\<close>

datatype sync_call =
    CallGetTradesFromList "int list"
  | CallBatchUpsert "trade_row list"
  | CallGetTradeStatesFromList "int list"
  | CallBatchPatchStates "state_patch list"

text \<open>
  \<^verbatim>\<open>syncFull\<close>: nothing for no ids; else fetch the trades, build one payload for
  each id (a missing trade makes \<^verbatim>\<open>tradeToPayload\<close> throw) and post them.
\<close>

definition syncFull :: "sync_env \<Rightarrow> int list \<Rightarrow> (js_error + nat) \<times> sync_call list" where
  "syncFull e ids =
     (if length ids = 0 then (Inr 0, [])
      else case getTradesFromList e ids of
        Inl err \<Rightarrow> (Inl err, [CallGetTradesFromList ids])
      | Inr trades \<Rightarrow>
          if length trades < length ids
            then (Inl (Error ''TypeError''), [CallGetTradesFromList ids])
          else
            let payloads = map (\<lambda>(i, t). tradeToPayload i t) (zip ids trades)
            in case batchUpsert e payloads of
                 Inl err \<Rightarrow> (Inl err, [CallGetTradesFromList ids, CallBatchUpsert payloads])
               | Inr r \<Rightarrow>
                   (Inr (case r of Some n \<Rightarrow> n | None \<Rightarrow> length payloads),
                    [CallGetTradesFromList ids, CallBatchUpsert payloads]))"

text \<open>The first loop of \<^verbatim>\<open>syncStates\<close>: the ids up to the maximum, split into those
  missing from the database and those present.\<close>

fun split_ids :: "sync_env \<Rightarrow> int \<Rightarrow> int list \<Rightarrow> int list \<times> int list" where
  "split_ids e maxExistingId [] = ([], [])"
| "split_ids e maxExistingId (i # ids) =
     (case split_ids e maxExistingId ids of (missing, present) \<Rightarrow>
        if i > maxExistingId then (missing, present)
        else if \<not> db_exists e i then (i # missing, present)
        else (missing, i # present))"

text \<open>
  The second loop, over \<^verbatim>\<open>present\<close> and the states fetched for it, builds
  \<^verbatim>\<open>patches\<close> and \<^verbatim>\<open>needFull\<close>. \<^verbatim>\<open>Number(states[i])\<close> is NaN past the end of
  \<^verbatim>\<open>states\<close> and differs from every number; \<^verbatim>\<open>Number(row.state)\<close> is 0 for NULL.
  No branch pushes to \<^verbatim>\<open>patches\<close>.
\<close>

fun states_loop ::
  "sync_env \<Rightarrow> int list \<Rightarrow> int list \<Rightarrow> state_patch list \<times> int list" where
  "states_loop e [] states = ([], [])"
| "states_loop e (i # present) states =
     (case states_loop e present (tl states) of (patches, needFull) \<Rightarrow>
        let newState = (case states of [] \<Rightarrow> None | s # _ \<Rightarrow> Some s)
        in case db_getRow e i of
             None \<Rightarrow> (patches, i # needFull)
           | Some row \<Rightarrow>
               let prevState = (case row_state row of None \<Rightarrow> 0 | Some s \<Rightarrow> s)
               in if newState \<noteq> Some prevState then (patches, i # needFull)
                  else (patches, needFull))"

record states_result =
  patched :: nat
  upsertedMissing :: nat
  fullForClosed :: nat

definition syncStates ::
  "sync_env \<Rightarrow> int list \<Rightarrow> int \<Rightarrow> (js_error + states_result) \<times> sync_call list" where
  "syncStates e ids maxExistingId =
     (case split_ids e maxExistingId ids of (missing, present) \<Rightarrow>
      case (if length missing \<noteq> 0 then syncFull e missing else (Inr 0, [])) of
        (Inl err, tr1) \<Rightarrow> (Inl err, tr1)
      | (Inr upsertedMissing', tr1) \<Rightarrow>
          if length present = 0
            then (Inr \<lparr>patched = 0, upsertedMissing = upsertedMissing', fullForClosed = 0\<rparr>, tr1)
          else case getTradeStatesFromList e present of
            Inl err \<Rightarrow> (Inl err, tr1 @ [CallGetTradeStatesFromList present])
          | Inr states \<Rightarrow>
              let tr2 = tr1 @ [CallGetTradeStatesFromList present] in
              case states_loop e present states of (patches, needFull) \<Rightarrow>
              case (if length patches \<noteq> 0
                    then (case batchPatchStates e patches of
                            Inl err \<Rightarrow> (Inl err, [CallBatchPatchStates patches])
                          | Inr r \<Rightarrow> (Inr (case r of Some n \<Rightarrow> n | None \<Rightarrow> 0),
                                      [CallBatchPatchStates patches]))
                    else (Inr 0, [])) of
                (Inl err, tr3) \<Rightarrow> (Inl err, tr2 @ tr3)
              | (Inr patched', tr3) \<Rightarrow>
                  (case (if length needFull \<noteq> 0 then syncFull e needFull else (Inr 0, [])) of
                     (Inl err, tr4) \<Rightarrow> (Inl err, tr2 @ tr3 @ tr4)
                   | (Inr fullForClosed', tr4) \<Rightarrow>
                       (Inr \<lparr>patched = patched', upsertedMissing = upsertedMissing',
                             fullForClosed = fullForClosed'\<rparr>, tr2 @ tr3 @ tr4)))"

text \<open>The ids a trace fetches in full and the ids of the rows it upserts.\<close>

fun fetched_ids :: "sync_call list \<Rightarrow> int list" where
  "fetched_ids [] = []"
| "fetched_ids (CallGetTradesFromList ids # cs) = ids @ fetched_ids cs"
| "fetched_ids (_ # cs) = fetched_ids cs"

fun upserted_ids :: "sync_call list \<Rightarrow> int list" where
  "upserted_ids [] = []"
| "upserted_ids (CallBatchUpsert ps # cs) = map id_col ps @ upserted_ids cs"
| "upserted_ids (_ # cs) = upserted_ids cs"

fun is_state_patch :: "sync_call \<Rightarrow> bool" where
  "is_state_patch (CallBatchPatchStates _) = True"
| "is_state_patch _ = False"

section \<open>The execution orchestrator (executor.multi.js)\<close>

text \<open>
  The tunables read from the environment, and the mutable state that \<^verbatim>\<open>main\<close>
  closes over: the dedup map \<^verbatim>\<open>recentlySent\<close>, the two caches of the admission
  check, the pending set and the timer of the resync batcher, and the cache of the
  proof fetcher. The key \<^verbatim>\<open>`${kind}:${tradeId}`\<close> of the dedup map is modelled by the
  pair of its two parts, which the text determines because a number prints without a
  colon.
\<close>

record config =
  DEDUP_MS :: int
  LP_FREE_TTL_MS :: int

definition default_config :: config where
  "default_config = \<lparr>DEDUP_MS = 15000, LP_FREE_TTL_MS = 1500\<rparr>"

record exec_state =
  recentlySent :: "(string \<times> int) \<rightharpoonup> int"
  lockedCache :: "int \<rightharpoonup> int"
  lpFreeCache_ts :: int
  lpFreeCache_valueE6 :: nat
  pending :: "int set"
  timer :: bool
  cache :: proof_cache

definition initial_state :: exec_state where
  "initial_state =
     \<lparr>recentlySent = Map.empty, lockedCache = Map.empty, lpFreeCache_ts = 0,
      lpFreeCache_valueE6 = 0, pending = {}, timer = False, cache = Map.empty\<rparr>"

text \<open>
  What the outside answers during one call of \<^verbatim>\<open>executeOnchain\<close>: the clock at its
  start, the field \<^verbatim>\<open>lpLockedCapital\<close> of the trade that \<^verbatim>\<open>GET /trade/:id\<close> returns
  (\<open>None\<close> for \<^verbatim>\<open>null\<close>) or the error of that request, the clock and the vault's
  answer inside \<^verbatim>\<open>getLpFreeCapitalE6\<close>, the clock and the proof service inside
  \<^verbatim>\<open>fetchProof\<close>, and whether sending the transaction and waiting for its
  confirmation succeed.
\<close>

record call_env =
  now :: int
  http_trade :: "js_error + string option"
  lp_now :: int
  vault_lpFreeCapital :: "js_error + nat"
  proof_now :: int
  proof_net :: "int list \<Rightarrow> js_error + string"
  send_tx :: "js_error + unit"
  wait_tx :: "js_error + unit"

text \<open>What a call does to the outside, in order.\<close>

datatype event =
    HttpGetTrade int
  | VaultLpFreeCapital
  | ResyncEnqueue int
  | WalletAcquire
  | FetchProof "int list"
  | ProofRequest "int list"
  | ExecuteOrder int string
  | ExecuteStopOrTakeProfit int string
  | TxWait

text \<open>\<^verbatim>\<open>resyncBatcher.enqueue\<close>: ids that are not positive are dropped; else the id
  joins the pending set and a flush is scheduled.\<close>

definition enqueue :: "exec_state \<Rightarrow> int \<Rightarrow> exec_state" where
  "enqueue st tradeId =
     (if tradeId \<le> 0 then st
      else st\<lparr>pending := insert tradeId (pending st), timer := True\<rparr>)"

text \<open>\<^verbatim>\<open>getTradeLockedE6\<close>: the cached amount, else
  \<^verbatim>\<open>BigInt(String(t.lpLockedCapital ?? "0"))\<close> of the trade fetched, which is cached.\<close>

definition getTradeLockedE6 ::
  "exec_state \<Rightarrow> int \<Rightarrow> call_env \<Rightarrow> (js_error + int) \<times> exec_state \<times> event list" where
  "getTradeLockedE6 st tradeId env =
     (case lockedCache st tradeId of
        Some hit \<Rightarrow> (Inr hit, st, [])
      | None \<Rightarrow>
          (case http_trade env of
             Inl err \<Rightarrow> (Inl err, st, [HttpGetTrade tradeId])
           | Inr field \<Rightarrow>
               (case js_BigInt (case field of None \<Rightarrow> ''0'' | Some s \<Rightarrow> s) of
                  None \<Rightarrow> (Inl SyntaxError, st, [HttpGetTrade tradeId])
                | Some locked \<Rightarrow>
                    (Inr locked, st\<lparr>lockedCache := (lockedCache st)(tradeId \<mapsto> locked)\<rparr>,
                     [HttpGetTrade tradeId]))))"

text \<open>\<^verbatim>\<open>getLpFreeCapitalE6\<close>: the cached figure while it is younger than the TTL, else
  the vault's figure, which is cached with the clock reading taken before the call.
  The figure is a \<^verbatim>\<open>uint256\<close> of the vault, so it is never negative.\<close>

definition getLpFreeCapitalE6 ::
  "config \<Rightarrow> exec_state \<Rightarrow> call_env \<Rightarrow> (js_error + nat) \<times> exec_state \<times> event list" where
  "getLpFreeCapitalE6 cfg st env =
     (if lp_now env - lpFreeCache_ts st < LP_FREE_TTL_MS cfg
        then (Inr (lpFreeCache_valueE6 st), st, [])
      else case vault_lpFreeCapital env of
        Inl err \<Rightarrow> (Inl err, st, [VaultLpFreeCapital])
      | Inr v \<Rightarrow>
          (Inr v,
           st\<lparr>lpFreeCache_ts := lp_now env, lpFreeCache_valueE6 := v\<rparr>,
           [VaultLpFreeCapital]))"

text \<open>
  The admission check of an entry: the attempt goes on, is skipped, or throws out of
  \<^verbatim>\<open>executeOnchain\<close>.
\<close>

datatype admission = Proceed | Skipped | Threw js_error

definition admission_check ::
  "config \<Rightarrow> exec_state \<Rightarrow> int \<Rightarrow> call_env \<Rightarrow> admission \<times> exec_state \<times> event list" where
  "admission_check cfg st tradeId env =
     (case getTradeLockedE6 st tradeId env of
        (Inl err, st1, tr1) \<Rightarrow> (Threw err, st1, tr1)
      | (Inr locked, st1, tr1) \<Rightarrow>
          if locked \<le> 0
            then (Skipped, enqueue st1 tradeId, tr1 @ [ResyncEnqueue tradeId])
          else case getLpFreeCapitalE6 cfg st1 env of
            (Inl err, st2, tr2) \<Rightarrow> (Threw err, st2, tr1 @ tr2)
          | (Inr free, st2, tr2) \<Rightarrow>
              if int free < locked then (Skipped, st2, tr1 @ tr2)
              else (Proceed, st2, tr1 @ tr2))"

text \<open>
  The body of the \<^verbatim>\<open>try\<close> block: the proof, then the ledger call for the kind and
  the wait for one confirmation. \<open>Inl\<close> is the exception that reaches \<^verbatim>\<open>catch\<close>.
\<close>

definition try_block ::
  "exec_state \<Rightarrow> string \<Rightarrow> int \<Rightarrow> int \<Rightarrow> call_env
     \<Rightarrow> (js_error + unit) \<times> exec_state \<times> event list" where
  "try_block st kind tradeId asset env =
     (case fetchProof (proof_net env) (cache st) (proof_now env) [asset] of
        (res, cache', sent) \<Rightarrow>
          let st1 = st\<lparr>cache := cache'\<rparr>;
              tr1 = FetchProof [asset] # map ProofRequest sent
          in case res of
               Inl err \<Rightarrow> (Inl err, st1, tr1)
             | Inr prf \<Rightarrow>
                 if kind = ''entry'' \<or> kind = ''exit'' then
                   (let call = (if kind = ''entry'' then ExecuteOrder tradeId prf
                                else ExecuteStopOrTakeProfit tradeId prf)
                    in case send_tx env of
                         Inl err \<Rightarrow> (Inl err, st1, tr1 @ [call])
                       | Inr _ \<Rightarrow>
                           (case wait_tx env of
                              Inl err \<Rightarrow> (Inl err, st1, tr1 @ [call, TxWait])
                            | Inr _ \<Rightarrow> (Inr (), st1, tr1 @ [call, TxWait])))
                 else (Inl (Error (''Unknown kind '' @ kind)), st1, tr1))"

text \<open>
  \<^verbatim>\<open>executeOnchain({ kind, tradeId, assetId })\<close>: the result (\<open>Inl\<close> when the promise
  rejects), the state afterwards and the events of the call.
\<close>

definition executeOnchain ::
  "config \<Rightarrow> exec_state \<Rightarrow> string \<Rightarrow> int \<Rightarrow> int \<Rightarrow> call_env
     \<Rightarrow> (js_error + unit) \<times> exec_state \<times> event list" where
  "executeOnchain cfg st kind tradeId asset env =
     (let key = (kind, tradeId);
          last_sent = (case recentlySent st key of None \<Rightarrow> 0 | Some t \<Rightarrow> t)
      in if now env - last_sent < DEDUP_MS cfg then (Inr (), st, [])
         else
           let st0 = st\<lparr>recentlySent := (recentlySent st)(key \<mapsto> now env)\<rparr> in
           case (if kind = ''entry'' then admission_check cfg st0 tradeId env
                 else (Proceed, st0, [])) of
             (Threw err, st1, tr1) \<Rightarrow> (Inl err, st1, tr1)
           | (Skipped, st1, tr1) \<Rightarrow> (Inr (), st1, tr1)
           | (Proceed, st1, tr1) \<Rightarrow>
               (case try_block st1 kind tradeId asset env of
                  (Inl err, st2, tr2) \<Rightarrow>
                    (Inr (), enqueue st2 tradeId,
                     tr1 @ [WalletAcquire] @ tr2 @ [ResyncEnqueue tradeId])
                | (Inr _, st2, tr2) \<Rightarrow> (Inr (), st2, tr1 @ [WalletAcquire] @ tr2)))"

text \<open>
  A call with its arguments and the answers it gets. Calls interleave only at an
  \<^verbatim>\<open>await\<close>, and \<^verbatim>\<open>recentlySent\<close> is read and written before the first one, so for
  the dedup map a run is a sequence of whole calls in the order they start.
\<close>

record call =
  c_kind :: string
  c_tradeId :: int
  c_asset :: int
  c_env :: call_env

definition exec_call :: "config \<Rightarrow> exec_state \<Rightarrow> call \<Rightarrow> (js_error + unit) \<times> exec_state \<times> event list" where
  "exec_call cfg st c = executeOnchain cfg st (c_kind c) (c_tradeId c) (c_asset c) (c_env c)"

text \<open>The state after a sequence of calls, and the events of each call.\<close>

fun run_calls :: "config \<Rightarrow> exec_state \<Rightarrow> call list \<Rightarrow> exec_state \<times> event list list" where
  "run_calls cfg st [] = (st, [])"
| "run_calls cfg st (c # cs) =
     (case exec_call cfg st c of (_, st1, tr) \<Rightarrow>
        case run_calls cfg st1 cs of (st2, trs) \<Rightarrow> (st2, tr # trs))"

text \<open>The downstream actions of an attempt: acquiring a wallet, fetching a proof,
  submitting a ledger call.\<close>

fun downstream :: "event \<Rightarrow> bool" where
  "downstream WalletAcquire = True"
| "downstream (FetchProof _) = True"
| "downstream (ProofRequest _) = True"
| "downstream (ExecuteOrder _ _) = True"
| "downstream (ExecuteStopOrTakeProfit _ _) = True"
| "downstream TxWait = True"
| "downstream _ = False"

section \<open>Example data\<close>

text \<open>A pending long limit order and an open long position with a stop-loss and no
  take-profit, as in the testable properties of the design.\<close>

definition example_order :: trade_row where
  "example_order =
     \<lparr>id_col = 7, trader = ''0x00000000000000000000000000000000000000aa'', assetId = 5000,
      isLong = 1, isLimit = 1, leverage = Some 10, openPrice = Some 70000000000,
      state = Some 0, openTimestamp = Some 1700000000, fundingIndex = Some ''0'',
      closePrice = Some 0, lotSize = Some 3, closedLotSize = 0, stopLoss = 0, takeProfit = 0,
      lpLockedCapital = Some ''1000000'', marginUsdc = Some ''500000''\<rparr>"

definition example_open :: trade_row where
  "example_open =
     \<lparr>id_col = 8, trader = ''0x00000000000000000000000000000000000000aa'', assetId = 5000,
      isLong = 1, isLimit = 0, leverage = Some 10, openPrice = Some 70000000000,
      state = Some 1, openTimestamp = Some 1700000000, fundingIndex = Some ''0'',
      closePrice = Some 0, lotSize = Some 3, closedLotSize = 0, stopLoss = 65000000000,
      takeProfit = 0, lpLockedCapital = Some ''1000000'', marginUsdc = Some ''500000''\<rparr>"

text \<open>A proof service that answers every request with the same proof bytes.\<close>

definition example_net :: "int list \<Rightarrow> js_error + string" where
  "example_net pairs = Inr ''ab''"

section \<open>Auxiliary notions for the properties\<close>

text \<open>An exception without a \<^verbatim>\<open>status\<close> property, which the routes answer with 400.\<close>

definition plain :: "exn \<Rightarrow> bool" where
  "plain e = (\<exists>m. e = Exn None m)"

text \<open>A request is rejected: the store is as before and the answer is a 4xx error.\<close>

definition rejected :: "store \<Rightarrow> store \<times> response \<Rightarrow> bool" where
  "rejected st res =
     (fst res = st \<and> 400 \<le> r_status (snd res) \<and> r_status (snd res) < 500 \<and> \<not> r_ok (snd res))"

text \<open>A request body that closes a trade and carries no close price, and a store
  holding the open position of the examples.\<close>

definition closing_body :: body where
  "closing_body =
     \<lparr>b_trader = Some ''0x00000000000000000000000000000000000000AA'',
      b_assetId = Some (Finite 5000), b_isLong = IsTrue, b_isLimit = IsFalse,
      b_leverage = Some (Finite 10), b_openPrice = Some (Finite 70000000000),
      b_state = Some (Finite 2), b_openTimestamp = None, b_fundingIndex = None,
      b_closePrice = None, b_lotSize = Some (Finite 3), b_closedLotSize = None,
      b_stopLoss = None, b_takeProfit = None, b_lpLockedCapital = None,
      b_marginUsdc = None\<rparr>"

definition example_store :: store where
  "example_store = [8 \<mapsto> example_open]"

text \<open>The shape of every pool the constructor builds from distinct keys, kept by
  \<^verbatim>\<open>acquire\<close>: some wallet, one \<^verbatim>\<open>busyUntil\<close> entry for each, no wallet twice.\<close>

definition pool_ok :: "'w WalletPool \<Rightarrow> bool" where
  "pool_ok p = (wallets p \<noteq> [] \<and> length (busyUntil p) = length (wallets p) \<and> distinct (wallets p))"

text \<open>A pool of two wallets as the constructor builds it, and six clock readings.\<close>

definition example_pool :: "string WalletPool" where
  "example_pool =
     \<lparr>wallets = [''key-a'', ''key-b''], perWalletDelayMs = 1000, nextIndex = 0, busyUntil = [0, 0]\<rparr>"

definition example_clock :: "int list" where
  "example_clock = [5000, 5001, 5002, 5500, 6000, 6001]"

text \<open>The test of the second loop of \<^verbatim>\<open>syncStates\<close> for one id, when the ledger's
  state of each id is \<open>ledger i\<close>: the row has gone, or its state is another one.\<close>

definition differs :: "sync_env \<Rightarrow> (int \<Rightarrow> int) \<Rightarrow> int \<Rightarrow> bool" where
  "differs e ledger i =
     (case db_getRow e i of
        None \<Rightarrow> True
      | Some row \<Rightarrow> ledger i \<noteq> (case row_state row of None \<Rightarrow> 0 | Some s \<Rightarrow> s))"

text \<open>A ledger on which every trade is open, and a local database that holds trade 1
  as an order and trade 2 as open, and does not hold trade 3.\<close>

definition example_chain_trade :: chain_trade where
  "example_chain_trade =
     \<lparr>c_trader = ''0x00000000000000000000000000000000000000AA'', c_assetId = 5000,
      c_isLong = True, c_isLimit = False, c_leverage = 10, c_openPrice = 70000000000,
      c_state = 1, c_openTimestamp = 1700000000, c_fundingIndex = ''0'', c_closePrice = 0,
      c_lotSize = 3, c_closedLotSize = 0, c_stopLoss = 65000000000, c_takeProfit = 0,
      c_lpLockedCapital = ''1000000'', c_marginUsdc = ''500000''\<rparr>"

definition example_ledger :: "int \<Rightarrow> int" where
  "example_ledger i = 1"

definition example_env :: sync_env where
  "example_env =
     \<lparr>getTradesFromList = (\<lambda>L. Inr (map (\<lambda>i. example_chain_trade) L)),
      getTradeStatesFromList = (\<lambda>L. Inr (map example_ledger L)),
      batchUpsert = (\<lambda>ps. Inr (Some (length ps))),
      batchPatchStates = (\<lambda>ps. Inr None),
      db_exists = (\<lambda>i. i = 1 \<or> i = 2),
      db_getRow = (\<lambda>i. if i = 1 then Some \<lparr>row_id = 1, row_state = Some 0, row_stopLoss = 0, row_takeProfit = 0\<rparr>
                        else if i = 2 then Some \<lparr>row_id = 2, row_state = Some 1, row_stopLoss = 0, row_takeProfit = 0\<rparr>
                        else None)\<rparr>"

text \<open>The dedup check of \<^verbatim>\<open>executeOnchain\<close> stops a call: the last recorded attempt
  for its key (0 when there is none) is less than the window before its start.\<close>

definition dedup_blocked :: "config \<Rightarrow> exec_state \<Rightarrow> call \<Rightarrow> bool" where
  "dedup_blocked cfg st c =
     (now (c_env c) - (case recentlySent st (c_kind c, c_tradeId c) of None \<Rightarrow> 0 | Some t \<Rightarrow> t)
        < DEDUP_MS cfg)"

text \<open>Calls for trade 7 on asset 5000 that start at clock reading \<open>t\<close>: the read API
  reports the given locked capital, the vault 500000 of free capital, and the proof
  service and the ledger answer without error.\<close>

definition example_call_env :: "int \<Rightarrow> string \<Rightarrow> call_env" where
  "example_call_env t locked =
     \<lparr>now = t, http_trade = Inr (Some locked), lp_now = t, vault_lpFreeCapital = Inr 500000,
      proof_now = t, proof_net = example_net, send_tx = Inr (), wait_tx = Inr ()\<rparr>"

definition exit_call :: "int \<Rightarrow> call" where
  "exit_call t =
     \<lparr>c_kind = ''exit'', c_tradeId = 7, c_asset = 5000, c_env = example_call_env t ''1000000''\<rparr>"

definition entry_call :: "int \<Rightarrow> string \<Rightarrow> call" where
  "entry_call t locked =
     \<lparr>c_kind = ''entry'', c_tradeId = 7, c_asset = 5000, c_env = example_call_env t locked\<rparr>"


subsection \<open>The fixed-point conversion as the design describes it\<close>

text \<open>The value of a decimal digit and of a string of decimal digits, most
  significant digit first (\<open>dec_le\<close> reads the digits least significant first).\<close>

definition digit_val :: "char \<Rightarrow> nat" where
  "digit_val c = (of_char c :: nat) - 48"

fun dec_le :: "string \<Rightarrow> int" where
  "dec_le [] = 0"
| "dec_le (c # cs) = int (digit_val c) + 10 * dec_le cs"

definition dec_value :: "string \<Rightarrow> int" where
  "dec_value s = dec_le (rev s)"

text \<open>
  The conversion in the words of the design, for a sign, the digits before the
  decimal point and the digits after it: the integer part is taken as it is, the
  fraction is padded with zeros to 7 digits, its 7th digit is rounded half-up into
  the first 6, the result is \<open>integer * 10\<^sup>6 + fraction\<close>, and the sign is applied last.
\<close>

definition e6_of_decimal :: "bool \<Rightarrow> string \<Rightarrow> string \<Rightarrow> int" where
  "e6_of_decimal neg ip fp =
     (let frac7 = take 7 (fp @ ''0000000'');
          mag = dec_value ip * 1000000 + dec_value (take 6 frac7)
                + (if 5 \<le> digit_val (frac7 ! 6) then 1 else 0)
      in if neg then - mag else mag)"

text \<open>The letters \<^verbatim>\<open>A-Z\<close> and \<^verbatim>\<open>a-z\<close>.\<close>

definition is_letter :: "char \<Rightarrow> bool" where
  "is_letter c = ((65 \<le> (of_char c :: nat) \<and> (of_char c :: nat) \<le> 90) \<or>
                  (97 \<le> (of_char c :: nat) \<and> (of_char c :: nat) \<le> 122))"


section \<open>Properties of the matching queries\<close>

subsection \<open>Truth of SQL conditions\<close>
lemma sql_true_and: "sql_true (sql_and a b) \<longleftrightarrow> sql_true a \<and> sql_true b"
  by (cases a; cases b) (auto simp: sql_true_def sql_and_def)

lemma sql_true_or: "sql_true (sql_or a b) \<longleftrightarrow> sql_true a \<or> sql_true b"
  by (cases a; cases b) (auto simp: sql_true_def sql_or_def)

lemma sql_true_eq: "sql_true (sql_eq a b) \<longleftrightarrow> (\<exists>x. a = Some x \<and> b = Some x)"
  by (cases a; cases b) (auto simp: sql_true_def sql_eq_def)

lemma sql_true_ne: "sql_true (sql_ne a b) \<longleftrightarrow> (\<exists>x y. a = Some x \<and> b = Some y \<and> x \<noteq> y)"
  by (cases a; cases b) (auto simp: sql_true_def sql_ne_def)

lemma sql_true_le: "sql_true (sql_le a b) \<longleftrightarrow> (\<exists>x y. a = Some x \<and> b = Some y \<and> x \<le> y)"
  by (cases a; cases b) (auto simp: sql_true_def sql_le_def)

lemma sql_true_ge: "sql_true (sql_ge a b) \<longleftrightarrow> (\<exists>x y. a = Some x \<and> b = Some y \<and> x \<ge> y)"
  by (cases a; cases b) (auto simp: sql_true_def sql_ge_def)

lemmas sql_true_simps = sql_true_and sql_true_or sql_true_eq sql_true_ne sql_true_le sql_true_ge

subsection \<open>Entry matching\<close>

lemma entry_push_limit:
  "limit (entry_push out rs) = limit out @ map fst (filter (\<lambda>p. snd p = ''limit'') rs)"
  by (induction out rs rule: entry_push.induct) simp_all

lemma entry_push_stop:
  "stop (entry_push out rs) = stop out @ map fst (filter (\<lambda>p. snd p = ''stop'') rs)"
  by (induction out rs rule: entry_push.induct) simp_all

lemma matchEntry_where_iff:
  "sql_true (matchEntry_where a m m m m r) \<longleftrightarrow>
     assetId r = a \<and> state r = Some 0 \<and>
     (\<exists>p. openPrice r = Some p \<and>
        (isLimit r = 1 \<and> isLong r = 1 \<and> m \<le> p \<or>
         isLimit r = 1 \<and> isLong r = 0 \<and> m \<ge> p \<or>
         isLimit r = 0 \<and> isLong r = 1 \<and> m \<ge> p \<or>
         isLimit r = 0 \<and> isLong r = 0 \<and> m \<le> p))"
  unfolding matchEntry_where_def sql_true_simps by (cases "openPrice r") auto



lemma matchEntry_kind_limit: "matchEntry_kind r = ''limit'' \<longleftrightarrow> isLimit r = 1"
  by (simp add: matchEntry_kind_def sql_true_eq)

lemma matchEntry_kind_stop: "matchEntry_kind r = ''stop'' \<longleftrightarrow> isLimit r \<noteq> 1"
  by (simp add: matchEntry_kind_def sql_true_eq)

lemma limit_list:
  "limit (match_entry rows a m) =
     map id_col (filter (\<lambda>r. sql_true (matchEntry_where a m m m m r) \<and> isLimit r = 1) rows)"
  unfolding match_entry_def matchEntry_def entry_push_limit
  by (simp add: filter_map o_def matchEntry_kind_limit conj_commute)


lemma stop_list:
  "stop (match_entry rows a m) =
     map id_col (filter (\<lambda>r. sql_true (matchEntry_where a m m m m r) \<and> isLimit r \<noteq> 1) rows)"
  unfolding match_entry_def matchEntry_def entry_push_stop
  by (simp add: filter_map o_def matchEntry_kind_stop conj_commute)

lemma distinct_id_mem:
  assumes "distinct (map id_col rows)" and "r \<in> set rows"
  shows "id_col r \<in> set (map id_col (filter P rows)) \<longleftrightarrow> P r"
proof
  assume "id_col r \<in> set (map id_col (filter P rows))"
  then obtain r' where r': "r' \<in> set rows" "P r'" "id_col r' = id_col r" by auto
  from assms(1) have "inj_on id_col (set rows)" by (simp add: distinct_map)
  with r'(1,3) assms(2) have "r' = r" by (auto dest: inj_onD)
  with r'(2) show "P r" by simp
next
  assume "P r" with assms(2) show "id_col r \<in> set (map id_col (filter P rows))" by auto
qed

text \<open>
  Claim C1. For a table with distinct primary keys, a row \<open>r\<close> of it and a query
  \<open>(a, m)\<close> of asset id and market price in E6: the id of \<open>r\<close> is in the answer of
  \<^verbatim>\<open>GET /match/entry\<close> exactly when \<open>r\<close> has state Order (0) and asset id \<open>a\<close> and
  one of the four trigger conditions holds for its open price (a NULL open price
  triggers nothing); a matched id is listed under \<open>limit\<close> when \<open>isLimit = 1\<close> and
  under \<open>stop\<close> otherwise; and a market price equal to the open price matches in all
  four cases.
\<close>

theorem match_entry_correct:
  assumes "distinct (map id_col rows)" and "r \<in> set rows"
  shows "(id_col r \<in> set (limit (match_entry rows a m)) \<union> set (stop (match_entry rows a m)) \<longleftrightarrow>
           state r = Some 0 \<and> assetId r = a \<and>
           (\<exists>p. openPrice r = Some p \<and>
              (isLimit r = 1 \<and> isLong r = 1 \<and> m \<le> p \<or>
               isLimit r = 1 \<and> isLong r = 0 \<and> m \<ge> p \<or>
               isLimit r = 0 \<and> isLong r = 1 \<and> m \<ge> p \<or>
               isLimit r = 0 \<and> isLong r = 0 \<and> m \<le> p)))
       \<and> (id_col r \<in> set (limit (match_entry rows a m)) \<union> set (stop (match_entry rows a m)) \<longrightarrow>
            (id_col r \<in> set (limit (match_entry rows a m)) \<longleftrightarrow> isLimit r = 1) \<and>
            (id_col r \<in> set (stop (match_entry rows a m)) \<longleftrightarrow> isLimit r \<noteq> 1))
       \<and> (state r = Some 0 \<and> assetId r = a \<and> openPrice r = Some m \<and>
            isLimit r \<in> {0, 1} \<and> isLong r \<in> {0, 1} \<longrightarrow>
            id_col r \<in> set (limit (match_entry rows a m)) \<union> set (stop (match_entry rows a m)))"
proof -
  have L: "id_col r \<in> set (limit (match_entry rows a m)) \<longleftrightarrow>
            sql_true (matchEntry_where a m m m m r) \<and> isLimit r = 1"
    unfolding limit_list by (rule distinct_id_mem[OF assms])
  have S: "id_col r \<in> set (stop (match_entry rows a m)) \<longleftrightarrow>
            sql_true (matchEntry_where a m m m m r) \<and> isLimit r \<noteq> 1"
    unfolding stop_list by (rule distinct_id_mem[OF assms])
  show ?thesis
    unfolding Un_iff L S matchEntry_where_iff by auto
qed


theorem match_entry_correct_witness:
  "distinct (map id_col [example_order]) \<and> example_order \<in> set [example_order] \<and>
   state example_order = Some 0 \<and> assetId example_order = 5000 \<and>
   openPrice example_order = Some 70000000000 \<and>
   isLimit example_order \<in> {0, 1} \<and> isLong example_order \<in> {0, 1} \<and>
   id_col example_order \<in> set (limit (match_entry [example_order] 5000 70000000000)) \<and>
   id_col example_order \<notin> set (stop (match_entry [example_order] 5000 70000000000))"
proof -
  have d: "distinct (map id_col [example_order])" and m: "example_order \<in> set [example_order]"
    by simp_all
  have f: "state example_order = Some 0" "assetId example_order = 5000"
    "openPrice example_order = Some 70000000000" "isLimit example_order = 1"
    "isLong example_order = 1"
    by (simp_all add: example_order_def)
  from match_entry_correct [OF d m, of 5000 70000000000] f d m show ?thesis
    by auto
qed

subsection \<open>Exit matching\<close>

lemma exits_push_sl:
  "stopLoss_ids (exits_push out rs) =
     stopLoss_ids out @ map fst (filter (\<lambda>p. snd p = Some ''stopLoss'') rs)"
  by (induction out rs rule: exits_push.induct) simp_all

lemma exits_push_tp:
  "takeProfit_ids (exits_push out rs) =
     takeProfit_ids out @ map fst (filter (\<lambda>p. snd p = Some ''takeProfit'') rs)"
  by (induction out rs rule: exits_push.induct) simp_all

lemma sl_cond_iff:
  "sql_true (sl_cond m m r) \<longleftrightarrow>
     stopLoss r \<noteq> 0 \<and> (isLong r = 1 \<and> m \<le> stopLoss r \<or> isLong r = 0 \<and> m \<ge> stopLoss r)"
  unfolding sl_cond_def sql_true_simps by auto

lemma tp_cond_iff:
  "sql_true (tp_cond m m r) \<longleftrightarrow>
     takeProfit r \<noteq> 0 \<and> (isLong r = 1 \<and> m \<ge> takeProfit r \<or> isLong r = 0 \<and> m \<le> takeProfit r)"
  unfolding tp_cond_def sql_true_simps by auto

lemma matchExits_kind_sl:
  "matchExits_kind m m m m r = Some ''stopLoss'' \<longleftrightarrow> sql_true (sl_cond m m r)"
  by (simp add: matchExits_kind_def)

lemma matchExits_kind_tp:
  "matchExits_kind m m m m r = Some ''takeProfit'' \<longleftrightarrow>
     sql_true (tp_cond m m r) \<and> \<not> sql_true (sl_cond m m r)"
  by (auto simp add: matchExits_kind_def)

lemma matchExits_where_iff:
  "sql_true (matchExits_where a m m m m r) \<longleftrightarrow>
     assetId r = a \<and> state r = Some 1 \<and> (sql_true (sl_cond m m r) \<or> sql_true (tp_cond m m r))"
  unfolding matchExits_where_def sql_true_simps by auto

lemma sl_list:
  "stopLoss_ids (match_exits rows a m) =
     map id_col (filter (\<lambda>r. sql_true (matchExits_where a m m m m r) \<and> sql_true (sl_cond m m r)) rows)"
  unfolding match_exits_def matchExits_def exits_push_sl
  by (simp add: filter_map o_def matchExits_kind_sl conj_commute)

lemma tp_list:
  "takeProfit_ids (match_exits rows a m) =
     map id_col (filter (\<lambda>r. sql_true (matchExits_where a m m m m r) \<and>
        (sql_true (tp_cond m m r) \<and> \<not> sql_true (sl_cond m m r))) rows)"
  unfolding match_exits_def matchExits_def exits_push_tp
  by (simp add: filter_map o_def matchExits_kind_tp conj_commute)

text \<open>
  Claim C2. For a table with distinct primary keys and a row \<open>r\<close> of it with state
  Open (1) and the queried asset id: the id of \<open>r\<close> is in the answer of
  \<^verbatim>\<open>GET /match/exits\<close> exactly when its stop-loss or its take-profit is not 0 and
  fires at the market price \<open>m\<close>; it is listed under \<open>stopLoss\<close> exactly when the
  stop-loss fires, under \<open>takeProfit\<close> exactly when the take-profit fires and the
  stop-loss does not, and never under \<open>takeProfit\<close> when its take-profit is 0.
\<close>

theorem match_exits_correct:
  assumes "distinct (map id_col rows)" and "r \<in> set rows"
    and "state r = Some 1" and "assetId r = a"
  shows "(id_col r \<in> set (stopLoss_ids (match_exits rows a m)) \<union>
                    set (takeProfit_ids (match_exits rows a m)) \<longleftrightarrow>
           stopLoss r \<noteq> 0 \<and> (isLong r = 1 \<and> m \<le> stopLoss r \<or> isLong r = 0 \<and> m \<ge> stopLoss r) \<or>
           takeProfit r \<noteq> 0 \<and> (isLong r = 1 \<and> m \<ge> takeProfit r \<or> isLong r = 0 \<and> m \<le> takeProfit r))
       \<and> (id_col r \<in> set (stopLoss_ids (match_exits rows a m)) \<longleftrightarrow>
           stopLoss r \<noteq> 0 \<and> (isLong r = 1 \<and> m \<le> stopLoss r \<or> isLong r = 0 \<and> m \<ge> stopLoss r))
       \<and> (id_col r \<in> set (takeProfit_ids (match_exits rows a m)) \<longleftrightarrow>
           takeProfit r \<noteq> 0 \<and> (isLong r = 1 \<and> m \<ge> takeProfit r \<or> isLong r = 0 \<and> m \<le> takeProfit r) \<and>
           \<not> (stopLoss r \<noteq> 0 \<and> (isLong r = 1 \<and> m \<le> stopLoss r \<or> isLong r = 0 \<and> m \<ge> stopLoss r)))
       \<and> (takeProfit r = 0 \<longrightarrow> id_col r \<notin> set (takeProfit_ids (match_exits rows a m)))"
proof -
  have S: "id_col r \<in> set (stopLoss_ids (match_exits rows a m)) \<longleftrightarrow>
            sql_true (matchExits_where a m m m m r) \<and> sql_true (sl_cond m m r)"
    unfolding sl_list by (rule distinct_id_mem[OF assms(1,2)])
  have T: "id_col r \<in> set (takeProfit_ids (match_exits rows a m)) \<longleftrightarrow>
            sql_true (matchExits_where a m m m m r) \<and>
            (sql_true (tp_cond m m r) \<and> \<not> sql_true (sl_cond m m r))"
    unfolding tp_list by (rule distinct_id_mem[OF assms(1,2)])
  show ?thesis
    unfolding Un_iff S T matchExits_where_iff sl_cond_iff tp_cond_iff
    using assms(3,4) by auto
qed

theorem match_exits_correct_witness:
  "distinct (map id_col [example_open]) \<and> example_open \<in> set [example_open] \<and>
   state example_open = Some 1 \<and> assetId example_open = 5000 \<and> takeProfit example_open = 0 \<and>
   id_col example_open \<in> set (stopLoss_ids (match_exits [example_open] 5000 65000000000)) \<and>
   id_col example_open \<notin> set (takeProfit_ids (match_exits [example_open] 5000 65000000000))"
proof -
  have d: "distinct (map id_col [example_open])" and m: "example_open \<in> set [example_open]"
    by simp_all
  have f: "state example_open = Some 1" "assetId example_open = 5000"
    "takeProfit example_open = 0" "stopLoss example_open = 65000000000"
    "isLong example_open = 1"
    by (simp_all add: example_open_def)
  from match_exits_correct [OF d m f(1,2), of 65000000000] f d m show ?thesis
    by auto
qed


section \<open>Properties of decimalToE6\<close>

lemma digit_not_ws: "is_digit c \<Longrightarrow> \<not> is_ws c"
  by (auto simp: is_digit_def is_ws_def)

lemma digit_of_digit: "is_digit c \<Longrightarrow> digit_of 10 c = Some (digit_val c)"
  by (auto simp: is_digit_def digit_of_def digit_val_def Let_def)

lemma digit_chars: "is_digit c \<Longrightarrow> c \<noteq> CHR ''.'' \<and> c \<noteq> CHR ''-'' \<and> c \<noteq> CHR ''+'' \<and>
    c \<noteq> CHR ''x'' \<and> c \<noteq> CHR ''X'' \<and> c \<noteq> CHR ''o'' \<and> c \<noteq> CHR ''O'' \<and>
    c \<noteq> CHR ''b'' \<and> c \<noteq> CHR ''B''"
  by (auto simp: is_digit_def)

lemma trim_id: "\<forall>c \<in> set s. \<not> is_ws c \<Longrightarrow> trim s = s"
proof -
  assume a: "\<forall>c \<in> set s. \<not> is_ws c"
  have d: "dropWhile is_ws xs = xs" if "\<forall>c \<in> set xs. \<not> is_ws c" for xs
    using that by (cases xs) auto
  from a have "dropWhile is_ws (rev s) = rev s" by (intro d) simp
  with d[OF a] show ?thesis by (simp add: trim_def)
qed

lemma dec_le_snoc: "dec_le (xs @ [c]) = dec_le xs + 10 ^ length xs * int (digit_val c)"
  by (induction xs) (simp_all add: algebra_simps)

lemma dec_value_Cons: "dec_value (c # s) = int (digit_val c) * 10 ^ length s + dec_value s"
  by (simp add: dec_value_def dec_le_snoc)

lemma parse_digits_digits:
  "list_all is_digit s \<Longrightarrow> parse_digits 10 acc s = Some (acc * 10 ^ length s + dec_value s)"
proof (induction s arbitrary: acc)
  case Nil
  show ?case by (simp add: dec_value_def)
next
  case (Cons c s)
  then have c: "digit_of 10 c = Some (digit_val c)" and s: "list_all is_digit s"
    by (simp_all add: digit_of_digit)
  show ?case by (simp add: c Cons.IH[OF s] dec_value_Cons algebra_simps)
qed

lemma split_on_no_sep: "sep \<notin> set xs \<Longrightarrow> split_on sep xs = [xs]"
  by (induction xs) auto

lemma split_on_first: "sep \<notin> set xs \<Longrightarrow> split_on sep (xs @ sep # ys) = xs # split_on sep ys"
  by (induction xs) auto

lemma js_BigInt_digits:
  assumes "list_all is_digit ds" and "ds \<noteq> []"
  shows "js_BigInt ds = Some (dec_value ds)"
proof -
  from assms(1) have "\<forall>c \<in> set ds. \<not> is_ws c" by (auto simp: list_all_iff digit_not_ws)
  then have t: "trim ds = ds" by (rule trim_id)
  from assms obtain c cs where ds: "ds = c # cs" by (cases ds) auto
  with assms(1) have c: "is_digit c" by simp
  have pr: "parse_radix 10 ds = Some (dec_value ds)"
    using assms parse_digits_digits[of ds 0] by (simp add: parse_radix_def)
  from c ds pr have sd: "signed_decimal ds = Some (dec_value ds)"
    using digit_chars[OF c] by (simp add: signed_decimal_def)
  show ?thesis
  proof (cases cs)
    case Nil
    with t ds sd show ?thesis by (simp add: js_BigInt_def)
  next
    case (Cons c2 r)
    with assms(1) ds have "is_digit c2" by simp
    from digit_chars[OF this] t ds Cons sd show ?thesis by (simp add: js_BigInt_def)
  qed
qed

lemma digit_val_zero: "digit_val CHR ''0'' = 0"
  by (simp add: digit_val_def)

lemma dec_value_zeros: "\<forall>c \<in> set z. c = CHR ''0'' \<Longrightarrow> dec_value (z @ r) = dec_value r"
  by (induction z) (simp_all add: dec_value_Cons digit_val_zero)

lemma is_digit_zero: "is_digit CHR ''0''"
  by (simp add: is_digit_def)

lemma strip_leading_zeros_digits:
  assumes "list_all is_digit ip" and "ip \<noteq> []"
  shows "list_all is_digit (strip_leading_zeros ip) \<and> strip_leading_zeros ip \<noteq> [] \<and>
         dec_value (strip_leading_zeros ip) = dec_value ip"
proof -
  let ?z = "takeWhile (\<lambda>c. c = CHR ''0'') ip" and ?r = "dropWhile (\<lambda>c. c = CHR ''0'') ip"
  have ip: "ip = ?z @ ?r" by simp
  have z: "\<forall>c \<in> set ?z. c = CHR ''0''" by (auto dest: set_takeWhileD)
  from assms(1) have r: "list_all is_digit ?r"
    by (auto simp: list_all_iff dest: set_dropWhileD)
  have v: "dec_value ip = dec_value ?r" using dec_value_zeros[OF z, of ?r] by simp
  show ?thesis
  proof (cases "?z = []")
    case True
    with assms show ?thesis by (simp add: strip_leading_zeros_def Let_def)
  next
    case zne: False
    show ?thesis
    proof (cases "?r = []")
      case False
      with r have "is_digit (hd ?r)" by (cases ?r) auto
      with False zne have "strip_leading_zeros ip = ?r" by (simp add: strip_leading_zeros_def Let_def)
      with False r v show ?thesis by simp
    next
      case True
      with v have v0: "dec_value ip = 0" by (simp add: dec_value_def)
      show ?thesis
      proof (cases "2 \<le> length ?z")
        case True
        with \<open>?r = []\<close> zne have "strip_leading_zeros ip = ''0''"
          by (simp add: strip_leading_zeros_def Let_def)
        with v0 show ?thesis by (simp add: is_digit_zero dec_value_Cons digit_val_zero dec_value_def)
      next
        case False
        with \<open>?r = []\<close> zne have "strip_leading_zeros ip = ip"
          by (simp add: strip_leading_zeros_def Let_def)
        with assms show ?thesis by simp
      qed
    qed
  qed
qed

lemma intPart_value:
  assumes "list_all is_digit ip"
  shows "js_BigInt (if (if ip \<noteq> [] then strip_leading_zeros ip else ''0'') \<noteq> []
                    then (if ip \<noteq> [] then strip_leading_zeros ip else ''0'') else ''0'')
         = Some (dec_value ip)"
proof (cases "ip = []")
  case True
  have "js_BigInt ''0'' = Some (dec_value ''0'')"
    by (rule js_BigInt_digits) (simp_all add: is_digit_zero)
  with True show ?thesis by (simp add: dec_value_def digit_val_zero)
next
  case False
  from strip_leading_zeros_digits[OF assms False] js_BigInt_digits[of "strip_leading_zeros ip"] False
  show ?thesis by simp
qed

lemma frac7_facts:
  assumes "list_all is_digit fp"
  shows "list_all is_digit (take 7 (fp @ ''0000000''))" and "length (take 7 (fp @ ''0000000'')) = 7"
proof -
  have "list_all is_digit ''0000000''" by (simp add: is_digit_zero)
  with assms have "list_all is_digit (fp @ ''0000000'')" by simp
  then show "list_all is_digit (take 7 (fp @ ''0000000''))"
    by (auto simp: list_all_iff dest: in_set_takeD)
  show "length (take 7 (fp @ ''0000000'')) = 7" by simp
qed

lemma frac_values:
  assumes "list_all is_digit fp"
  defines "f7 \<equiv> take 7 (fp @ ''0000000'')"
  shows "js_BigInt (if take 6 f7 \<noteq> [] then take 6 f7 else ''0'') = Some (dec_value (take 6 f7))"
    and "js_Number_char (f7 ! 6) = Some (digit_val (f7 ! 6))"
proof -
  note f = frac7_facts[OF assms(1), folded f7_def]
  from f(1) have d6: "list_all is_digit (take 6 f7)"
    by (auto simp: list_all_iff dest: in_set_takeD)
  from f(2) have ne: "take 6 f7 \<noteq> []" by auto
  from js_BigInt_digits[OF d6 ne] ne
  show "js_BigInt (if take 6 f7 \<noteq> [] then take 6 f7 else ''0'') = Some (dec_value (take 6 f7))"
    by simp
  from f have "is_digit (f7 ! 6)" by (simp add: list_all_length)
  then show "js_Number_char (f7 ! 6) = Some (digit_val (f7 ! 6))"
    by (simp add: js_Number_char_def digit_not_ws digit_of_digit)
qed

lemma decimalToE6_core:
  assumes t: "trim s0 = s" and ne: "s \<noteq> []"
    and parts: "split_on CHR ''.'' (if take 1 s = ''-'' then drop 1 s else s) = ip # ps"
    and fp: "fp = (case ps of [] \<Rightarrow> [] | p1 # _ \<Rightarrow> p1)"
    and di: "list_all is_digit ip" and df: "list_all is_digit fp"
  shows "decimalToE6 (Some s0) = Inr (Some (js_Number_of_BigInt (e6_of_decimal (take 1 s = ''-'') ip fp)))"
proof -
  note iv = intPart_value[OF di]
  note fv = frac_values[OF df]
  have ne': "(s = []) = False" using ne by simp
  show ?thesis
    unfolding decimalToE6_def Let_def e6_of_decimal_def
    apply (simp only: option.case t ne' if_False parts list.case fp[symmetric] iv fv)
    apply (simp only: option.case sum.inject option.inject split: if_split)
    apply simp
    done
qed

lemma digits_no_dot: "list_all is_digit s \<Longrightarrow> CHR ''.'' \<notin> set s"
  by (auto simp: list_all_iff dest: digit_chars)

lemma decimal_form_trim:
  assumes "list_all is_digit ip" and "list_all is_digit fp"
  shows "trim ((if neg then ''-'' else []) @ ip @ ''.'' @ fp) = (if neg then ''-'' else []) @ ip @ ''.'' @ fp"
    and "trim ((if neg then ''-'' else []) @ ip) = (if neg then ''-'' else []) @ ip"
proof -
  have a: "\<not> is_ws CHR ''-''" "\<not> is_ws CHR ''.''" by (simp_all add: is_ws_def)
  from assms have b: "\<forall>c \<in> set ip. \<not> is_ws c" "\<forall>c \<in> set fp. \<not> is_ws c"
    by (auto simp: list_all_iff digit_not_ws)
  show "trim ((if neg then ''-'' else []) @ ip @ ''.'' @ fp) = (if neg then ''-'' else []) @ ip @ ''.'' @ fp"
    by (rule trim_id) (use a b in auto)
  show "trim ((if neg then ''-'' else []) @ ip) = (if neg then ''-'' else []) @ ip"
    by (rule trim_id) (use a b in auto)
qed

lemma head_not_minus:
  assumes "list_all is_digit ip"
  shows "take 1 (ip @ ''.'' @ fp) \<noteq> ''-''" and "ip \<noteq> [] \<Longrightarrow> take 1 ip \<noteq> ''-''"
  using assms by (cases ip; auto dest: digit_chars)+

lemma decimalToE6_dot:
  assumes di: "list_all is_digit ip" and df: "list_all is_digit fp"
  shows "decimalToE6 (Some ((if neg then ''-'' else []) @ ip @ ''.'' @ fp)) =
           Inr (Some (js_Number_of_BigInt (e6_of_decimal neg ip fp)))"
proof -
  let ?s = "(if neg then ''-'' else []) @ ip @ ''.'' @ fp"
  have n: "(take 1 ?s = ''-'') = neg" using head_not_minus(1)[OF di, of fp] by simp
  have sp: "split_on CHR ''.'' (ip @ CHR ''.'' # fp) = [ip, fp]"
    using split_on_first[OF digits_no_dot[OF di], of fp] split_on_no_sep[OF digits_no_dot[OF df]]
    by simp
  have parts: "split_on CHR ''.'' (if take 1 ?s = ''-'' then drop 1 ?s else ?s) = ip # [fp]"
    unfolding n using sp by simp
  have "decimalToE6 (Some ?s) = Inr (Some (js_Number_of_BigInt (e6_of_decimal (take 1 ?s = ''-'') ip fp)))"
    by (rule decimalToE6_core[OF decimal_form_trim(1)[OF di df] _ parts _ di df]) simp_all
  with n show ?thesis by simp
qed

lemma decimalToE6_nodot:
  assumes di: "list_all is_digit ip" and ne: "ip \<noteq> []"
  shows "decimalToE6 (Some ((if neg then ''-'' else []) @ ip)) =
           Inr (Some (js_Number_of_BigInt (e6_of_decimal neg ip [])))"
proof -
  let ?s = "(if neg then ''-'' else []) @ ip"
  have n: "(take 1 ?s = ''-'') = neg" using head_not_minus(2)[OF di ne] by simp
  have parts: "split_on CHR ''.'' (if take 1 ?s = ''-'' then drop 1 ?s else ?s) = ip # []"
    unfolding n using split_on_no_sep[OF digits_no_dot[OF di]] by simp
  have "decimalToE6 (Some ?s) = Inr (Some (js_Number_of_BigInt (e6_of_decimal (take 1 ?s = ''-'') ip [])))"
    by (rule decimalToE6_core[OF decimal_form_trim(2)[OF di di] _ parts _ di]) (use ne in simp_all)
  with n show ?thesis by simp
qed

lemma decimalToE6_blank: "trim s = [] \<Longrightarrow> decimalToE6 (Some s) = Inr None"
  by (simp add: decimalToE6_def)

lemma letter_facts:
  assumes "is_letter c"
  shows "\<not> is_ws c" and "c \<noteq> CHR ''0''" and "c \<noteq> CHR ''+''" and "c \<noteq> CHR ''-''"
    and "c \<noteq> CHR ''.''" and "digit_of 10 c = None"
  using assms by (auto simp: is_letter_def is_ws_def digit_of_def Let_def)

lemma trim_keeps_head:
  assumes "\<not> is_ws c"
  shows "\<exists>p'. trim (c # p) = c # p'"
proof -
  have "\<exists>ys. dropWhile is_ws (rev p @ [c]) = ys @ [c]"
    using assms by (simp add: dropWhile_append)
  then obtain ys where "dropWhile is_ws (rev p @ [c]) = ys @ [c]" by blast
  with assms show ?thesis by (simp add: trim_def)
qed

lemma js_BigInt_letter:
  assumes "is_letter c"
  shows "js_BigInt (c # p) = None"
proof -
  note l = letter_facts[OF assms]
  from trim_keeps_head[OF l(1), of p] obtain p' where t: "trim (c # p) = c # p'" by blast
  have sd: "signed_decimal (c # p') = None"
    using l by (simp add: signed_decimal_def parse_radix_def)
  show ?thesis
    using l(2) sd by (cases p') (simp_all add: js_BigInt_def t)
qed

lemma split_on_head:
  assumes "c \<noteq> sep"
  shows "\<exists>p ps. split_on sep (c # cs) = (c # p) # ps"
  using assms by (cases "split_on sep cs") auto

lemma decimalToE6_letter:
  assumes l: "is_letter c" and t: "trim s0 = (if neg then ''-'' else []) @ c # r"
  shows "decimalToE6 (Some s0) = Inl SyntaxError"
proof -
  let ?s = "(if neg then ''-'' else []) @ c # r"
  note lf = letter_facts[OF l]
  have n: "(if take 1 ?s = ''-'' then drop 1 ?s else ?s) = c # r" using lf(4) by simp
  from split_on_head[OF lf(5), of r] obtain p ps where
    sp: "split_on CHR ''.'' (c # r) = (c # p) # ps" by blast
  have st: "strip_leading_zeros (c # p) = c # p"
    using lf(2) by (simp add: strip_leading_zeros_def)
  have ne: "(?s = []) = False" by simp
  have ne2: "(c # p \<noteq> []) = True" by simp
  show ?thesis
    unfolding decimalToE6_def Let_def
    by (simp only: option.case t ne if_False n sp list.case ne2 if_True st
        js_BigInt_letter[OF l])
qed


lemma number_exact: "\<bar>n\<bar> \<le> 2 ^ 53 \<Longrightarrow> js_Number_of_BigInt n = Num n"
  by (auto simp: js_Number_of_BigInt_def round_to_double_def)

text \<open>
  Claim C7, as amended. On a decimal numeral, that is an optional minus sign, digits,
  and optionally a decimal point and digits, \<^verbatim>\<open>decimalToE6\<close> returns \<^verbatim>\<open>Number\<close> of the
  value the design describes (\<open>e6_of_decimal\<close>: integer part as it is, fraction
  padded to 7 digits, 7th digit rounded half-up into the 6-digit fraction, sign
  applied last), and \<^verbatim>\<open>Number\<close> is that very integer when its magnitude is at most
  \<open>2\<^sup>5\<^sup>3\<close>. The function returns \<^verbatim>\<open>null\<close> for \<^verbatim>\<open>null\<close>, \<^verbatim>\<open>undefined\<close> and for a
  string that is empty after trimming, and it throws when the trimmed text starts,
  after an optional minus sign, with a letter. Nothing is said of other text that is
  not a numeral.
\<close>

theorem decimalToE6_spec:
  "(list_all is_digit ip \<and> list_all is_digit fp \<longrightarrow>
      decimalToE6 (Some ((if neg then ''-'' else []) @ ip @ ''.'' @ fp)) =
        Inr (Some (js_Number_of_BigInt (e6_of_decimal neg ip fp))))
   \<and> (list_all is_digit ip2 \<and> ip2 \<noteq> [] \<longrightarrow>
      decimalToE6 (Some ((if neg2 then ''-'' else []) @ ip2)) =
        Inr (Some (js_Number_of_BigInt (e6_of_decimal neg2 ip2 []))))
   \<and> (\<bar>n\<bar> \<le> 2 ^ 53 \<longrightarrow> js_Number_of_BigInt n = Num n)
   \<and> decimalToE6 None = Inr None
   \<and> (trim s = [] \<longrightarrow> decimalToE6 (Some s) = Inr None)
   \<and> (is_letter c \<and> trim s3 = (if neg3 then ''-'' else []) @ c # r \<longrightarrow>
      decimalToE6 (Some s3) = Inl SyntaxError)"
  using decimalToE6_dot[of ip fp neg] decimalToE6_nodot[of ip2 neg2] number_exact[of n]
    decimalToE6_blank[of s] decimalToE6_letter[of c s3 neg3 r]
  by (simp add: decimalToE6_def)

lemma e6_examples:
  "e6_of_decimal True ''0'' ''0000005'' = - 1"
  "e6_of_decimal False ''69000'' [] = 69000000000"
  "e6_of_decimal False ''1'' ''2'' = 1200000"
  "e6_of_decimal True [] [] = 0"
  "e6_of_decimal False ''9007199254'' ''740993'' = 9007199254740993"
  by (simp_all add: e6_of_decimal_def dec_value_def digit_val_def)

lemma number_examples:
  "js_Number_of_BigInt 9007199254740993 = Num 9007199254740992"
  "js_Number_of_BigInt 1200000 = Num 1200000"
  "js_Number_of_BigInt 0 = Num 0"
  "js_Number_of_BigInt (- 1) = Num (- 1)"
  "js_Number_of_BigInt 69000000000 = Num 69000000000"
  by (simp_all add: js_Number_of_BigInt_def round_to_double_def Let_def)

lemma malformed_two_points: "decimalToE6 (Some ''1.2.3'') = Inr (Some (Num 1200000))"
proof -
  have t: "trim ''1.2.3'' = ''1.2.3''" by (simp add: trim_def is_ws_def)
  have p: "split_on CHR ''.'' (if take 1 ''1.2.3'' = ''-'' then drop 1 ''1.2.3'' else ''1.2.3'')
             = ''1'' # [''2'', ''3'']" by simp
  have d: "list_all is_digit ''1''" "list_all is_digit ''2''" by (simp_all add: is_digit_def)
  from decimalToE6_core[OF t _ p _ d] show ?thesis
    by (simp add: e6_examples number_examples)
qed

lemma malformed_minus: "decimalToE6 (Some ''-'') = Inr (Some (Num 0))"
proof -
  have t: "trim ''-'' = ''-''" by (simp add: trim_def is_ws_def)
  have p: "split_on CHR ''.'' (if take 1 ''-'' = ''-'' then drop 1 ''-'' else ''-'') = [] # []"
    by simp
  have d: "list_all is_digit []" by simp
  from decimalToE6_core[OF t _ p _ d d] show ?thesis
    by (simp add: e6_examples number_examples)
qed

lemma beyond_safe_integer:
  "decimalToE6 (Some ''9007199254.740993'') = Inr (Some (Num 9007199254740992))"
proof -
  have d: "list_all is_digit ''9007199254''" "list_all is_digit ''740993''"
    by (simp_all add: is_digit_def)
  from decimalToE6_dot[OF d, of False] show ?thesis
    by (simp add: e6_examples number_examples)
qed

text \<open>
  Claim C7 as stated fails twice. \<^verbatim>\<open>"1.2.3"\<close> and \<^verbatim>\<open>"-"\<close> are not numbers, and the
  function neither returns \<^verbatim>\<open>null\<close> nor throws on them: it returns 1200000 and 0.
  And on \<^verbatim>\<open>"9007199254.740993"\<close> the result is not \<open>integer * 10\<^sup>6 + fraction\<close>, which
  is 9007199254740993, but the double next to it, 9007199254740992.
\<close>

theorem decimalToE6_accepts_malformed:
  "decimalToE6 (Some ''1.2.3'') = Inr (Some (Num 1200000)) \<and>
   decimalToE6 (Some ''-'') = Inr (Some (Num 0)) \<and>
   list_all is_digit ''9007199254'' \<and> list_all is_digit ''740993'' \<and>
   e6_of_decimal False ''9007199254'' ''740993'' = 9007199254740993 \<and>
   decimalToE6 (Some ''9007199254.740993'') = Inr (Some (Num 9007199254740992))"
  using malformed_two_points malformed_minus beyond_safe_integer e6_examples(5)
  by (simp add: is_digit_def)

theorem decimalToE6_spec_witness:
  "list_all is_digit ''0'' \<and> list_all is_digit ''0000005'' \<and>
   \<bar>- 1 :: int\<bar> \<le> 2 ^ 53 \<and>
   decimalToE6 (Some ''-0.0000005'') = Inr (Some (Num (- 1))) \<and>
   list_all is_digit ''69000'' \<and> ''69000'' \<noteq> [] \<and>
   decimalToE6 (Some ''69000'') = Inr (Some (Num 69000000000)) \<and>
   trim ''  '' = [] \<and> decimalToE6 (Some ''  '') = Inr None \<and>
   is_letter CHR ''a'' \<and> trim ''abc'' = ''abc'' \<and>
   decimalToE6 (Some ''abc'') = Inl SyntaxError"
proof -
  have d: "list_all is_digit ''0''" "list_all is_digit ''0000005''" "list_all is_digit ''69000''"
    by (simp_all add: is_digit_def)
  have m: "\<bar>- 1 :: int\<bar> \<le> 2 ^ 53" by simp
  have b: "trim ''  '' = []" by (simp add: trim_def is_ws_def)
  have l: "is_letter CHR ''a''" by (simp add: is_letter_def)
  have t: "trim ''abc'' = ''abc''" by (simp add: trim_def is_ws_def)
  note th = decimalToE6_spec [of "''0''" "''0000005''" True "''69000''" False "- 1" "''  ''"
      "CHR ''a''" "''abc''" False "''bc''"]
  from th m have e: "js_Number_of_BigInt (- 1) = Num (- 1)" by blast
  from th d e have 1: "decimalToE6 (Some ''-0.0000005'') = Inr (Some (Num (- 1)))"
    by (simp add: e6_examples)
  from th d have 2: "decimalToE6 (Some ''69000'') = Inr (Some (Num 69000000000))"
    by (simp add: e6_examples number_examples)
  from th b have 3: "decimalToE6 (Some ''  '') = Inr None" by blast
  from th l t have 4: "decimalToE6 (Some ''abc'') = Inl SyntaxError" by simp
  from d m b l t 1 2 3 4 show ?thesis by simp
qed

section \<open>Properties of the proof fetcher\<close>

lemma sort_mset_eq: "mset xs = mset ys \<Longrightarrow> sort xs = sort (ys :: int list)"
  by (rule properties_for_sort) simp_all

lemma makeKey_mset: "mset xs = mset ys \<Longrightarrow> makeKey xs = makeKey ys"
  unfolding makeKey_def by (drule sort_mset_eq) simp


lemma fetchProof_miss_stores:
  assumes "fetchProof net c t xs = (Inr p, c', sent)" and "sent \<noteq> []"
  shows "c' (makeKey xs) = Some \<lparr>proof_str = p, ts = t\<rparr>"
proof (cases "c (makeKey xs)")
  case None
  show ?thesis
  proof (cases "net xs")
    case (Inl err)
    with None assms show ?thesis
      unfolding fetchProof_def Let_def getProof_def by (simp split: if_splits)
  next
    case (Inr pb)
    with None assms show ?thesis
      unfolding fetchProof_def Let_def getProof_def by (auto split: if_splits)
  qed
next
  case (Some hit)
  show ?thesis
  proof (cases "t - ts hit < 1000")
    case True
    with Some assms show ?thesis
      unfolding fetchProof_def Let_def by simp
  next
    case False
    show ?thesis
    proof (cases "net xs")
      case (Inl err)
      with False Some assms show ?thesis
        unfolding fetchProof_def Let_def getProof_def by (simp split: if_splits)
    next
      case (Inr pb)
      with False Some assms show ?thesis
        unfolding fetchProof_def Let_def getProof_def by (auto split: if_splits)
    qed
  qed
qed

text \<open>
  Claim C8, as amended. Two requests whose index lists are equal as multisets (the
  same indices with the same multiplicities, in any order) have the same cache key,
  which is the sorted list joined with commas, duplicates kept; so after a request
  at \<open>t1\<close> that was answered by the proof service, a request for the other list
  less than 1000 ms later returns the same proof from the cache, leaves the cache as
  it is and sends nothing to the service.
\<close>

theorem fetchProof_cache_key:
  assumes "mset xs = mset ys"
    and "fetchProof net c t1 xs = (Inr p, c1, sent)" and "sent \<noteq> []"
    and "t2 - t1 < 1000"
  shows "makeKey xs = makeKey ys \<and> makeKey xs = join '','' (map string_of_int (sort xs)) \<and>
         fetchProof net2 c1 t2 ys = (Inr p, c1, [])"
proof -
  have k: "makeKey xs = makeKey ys" by (rule makeKey_mset[OF assms(1)])
  have "c1 (makeKey ys) = Some \<lparr>proof_str = p, ts = t1\<rparr>"
    using fetchProof_miss_stores[OF assms(2,3)] k by simp
  then have "fetchProof net2 c1 t2 ys = (Inr p, c1, [])"
    using assms(4) by (simp add: fetchProof_def Let_def)
  with k show ?thesis
    by (simp add: makeKey_def)
qed

lemma string_of_nat_digit: "n < 10 \<Longrightarrow> string_of_nat n = [digit_char n]"
  by (subst string_of_nat.simps) simp

lemma string_of_int_1: "string_of_int 1 = ''1''"
  by (simp add: string_of_int_def string_of_nat_digit digit_char_def)

lemma makeKey_11: "makeKey [1, 1] = ''1,1''"
  by (simp add: makeKey_def string_of_int_1)

lemma makeKey_1: "makeKey [1] = ''1''"
  by (simp add: makeKey_def string_of_int_1)

lemma string_of_int_2: "string_of_int 2 = ''2''"
  by (simp add: string_of_int_def string_of_nat_digit digit_char_def)

lemma makeKey_211: "makeKey [2, 1, 1] = ''1,1,2''"
  by (simp add: makeKey_def string_of_int_1 string_of_int_2)

lemma fetch_11:
  "fetchProof example_net Map.empty 0 [1, 1] =
     (Inr ''0xab'', [''1,1'' \<mapsto> \<lparr>proof_str = ''0xab'', ts = 0\<rparr>], [[1, 1]])"
  by (simp add: fetchProof_def getProof_def example_net_def makeKey_11 normalizeProof_def Let_def)

lemma fetch_1_after:
  "fetchProof example_net [''1,1'' \<mapsto> \<lparr>proof_str = ''0xab'', ts = 0\<rparr>] 500 [1] =
     (Inr ''0xab'', [''1,1'' \<mapsto> \<lparr>proof_str = ''0xab'', ts = 0\<rparr>,
                     ''1'' \<mapsto> \<lparr>proof_str = ''0xab'', ts = 500\<rparr>], [[1]])"
  by (simp add: fetchProof_def getProof_def example_net_def makeKey_1 normalizeProof_def Let_def)

text \<open>
  Claim C8 as stated fails: \<open>[1, 1]\<close> and \<open>[1]\<close> are equal as sets, but their
  keys differ, and a request for \<open>[1]\<close> 500 ms after one for \<open>[1, 1]\<close> goes to
  the proof service again.
\<close>

theorem makeKey_not_deduplicated:
  "set [1, 1 :: int] = set [1] \<and> makeKey [1, 1] \<noteq> makeKey [1] \<and>
   fetchProof example_net Map.empty 0 [1, 1] =
     (Inr ''0xab'', [''1,1'' \<mapsto> \<lparr>proof_str = ''0xab'', ts = 0\<rparr>], [[1, 1]]) \<and>
   (500 :: int) - 0 < 1000 \<and>
   snd (snd (fetchProof example_net [''1,1'' \<mapsto> \<lparr>proof_str = ''0xab'', ts = 0\<rparr>] 500 [1])) = [[1]]"
  unfolding fetch_11 fetch_1_after makeKey_11 makeKey_1 by simp

lemma fetch_211:
  "fetchProof example_net Map.empty 0 [2, 1, 1] =
     (Inr ''0xab'', [''1,1,2'' \<mapsto> \<lparr>proof_str = ''0xab'', ts = 0\<rparr>], [[2, 1, 1]])"
  by (simp add: fetchProof_def getProof_def example_net_def makeKey_211 normalizeProof_def Let_def)

theorem fetchProof_cache_key_witness:
  "mset [2, 1, 1 :: int] = mset [1, 2, 1] \<and>
   fetchProof example_net Map.empty 0 [2, 1, 1] =
     (Inr ''0xab'', [''1,1,2'' \<mapsto> \<lparr>proof_str = ''0xab'', ts = 0\<rparr>], [[2, 1, 1]]) \<and>
   [[2, 1, 1 :: int]] \<noteq> [] \<and> (999 :: int) - 0 < 1000 \<and>
   makeKey [2, 1, 1] = makeKey [1, 2, 1] \<and>
   fetchProof example_net [''1,1,2'' \<mapsto> \<lparr>proof_str = ''0xab'', ts = 0\<rparr>] 999 [1, 2, 1] =
     (Inr ''0xab'', [''1,1,2'' \<mapsto> \<lparr>proof_str = ''0xab'', ts = 0\<rparr>], [])"
proof -
  have m: "mset [2, 1, 1 :: int] = mset [1, 2, 1]" by simp
  have s: "[[2, 1, 1 :: int]] \<noteq> []" by simp
  have t: "(999 :: int) - 0 < 1000" by simp
  note r = fetchProof_cache_key [OF m fetch_211 s t, of example_net]
  from r have "makeKey [2, 1, 1] = makeKey [1, 2, 1]" by (rule conjunct1)
  moreover from r have "fetchProof example_net [''1,1,2'' \<mapsto> \<lparr>proof_str = ''0xab'', ts = 0\<rparr>] 999 [1, 2, 1] =
     (Inr ''0xab'', [''1,1,2'' \<mapsto> \<lparr>proof_str = ''0xab'', ts = 0\<rparr>], [])"
    by (rule conjunct2[THEN conjunct2])
  ultimately show ?thesis using m fetch_211 s t by blast
qed


section \<open>Properties of the write routes\<close>

lemma bindE_Inr_iff: "bindE x f = Inr y \<longleftrightarrow> (\<exists>a. x = Inr a \<and> f a = Inr y)"
  by (cases x) (simp_all add: bindE_def)

lemma bindE_Inl_iff: "bindE x f = Inl e \<longleftrightarrow> x = Inl e \<or> (\<exists>a. x = Inr a \<and> f a = Inl e)"
  by (cases x) (simp_all add: bindE_def)

lemma toInt_Inl: "toInt v n = Inl e \<Longrightarrow> plain e"
  by (auto simp: toInt_def plain_def split: option.splits jnum.splits)

lemma toInt_or_null_Inl: "toInt_or_null v n = Inl e \<Longrightarrow> plain e"
  by (auto simp: toInt_or_null_def bindE_Inl_iff split: option.splits dest: toInt_Inl)

lemma toInt_or_zero_Inl: "toInt_or_zero v n = Inl e \<Longrightarrow> plain e"
  by (auto simp: toInt_or_zero_def split: option.splits dest: toInt_Inl)

lemma toBoolInt_Inl: "toBoolInt v n = Inl e \<Longrightarrow> plain e"
  by (auto simp: toBoolInt_def plain_def split: jbool.splits)

lemmas field_Inl = toInt_Inl toInt_or_null_Inl toInt_or_zero_Inl toBoolInt_Inl

lemma put_payload_Inl: "put_payload i b = Inl e \<Longrightarrow> plain e"
  unfolding put_payload_def bindE_Inl_iff
  by (elim disjE exE conjE) (auto dest: field_Inl)

lemma caught_plain: "plain e \<Longrightarrow> caught e = fail 400 (case e of Exn _ m \<Rightarrow> if m = [] then ''Bad request'' else m)"
  by (auto simp: plain_def caught_def)

lemma put_payload_Inr:
  "put_payload i b = Inr pl \<Longrightarrow>
     (\<exists>s. toInt (b_state b) ''state'' = Inr s \<and> state pl = Some s) \<and>
     (\<exists>c. toInt_or_zero (b_closePrice b) ''closePrice'' = Inr c \<and> closePrice pl = Some c)"
  unfolding put_payload_def bindE_Inr_iff
  by (elim exE conjE) auto

lemma rejected_fail: "400 \<le> n \<Longrightarrow> n < 500 \<Longrightarrow> rejected st (st, fail n msg)"
  by (simp add: rejected_def fail_def)

lemma rejected_plain: "plain e \<Longrightarrow> rejected st (st, caught e)"
  by (simp add: caught_plain rejected_fail)

lemma patch_of_body_Inl: "patch_of_body i b = Inl e \<Longrightarrow> plain e"
  unfolding patch_of_body_def bindE_Inl_iff
  by (elim disjE exE conjE) (auto dest: field_Inl)

lemma patch_of_body_Inr:
  "patch_of_body i b = Inr p \<Longrightarrow>
     p_id p = i \<and>
     toInt_or_null (b_state b) ''state'' = Inr (p_state p) \<and>
     toInt_or_null (b_closePrice b) ''closePrice'' = Inr (p_closePrice p) \<and>
     toInt_or_null (b_closedLotSize b) ''closedLotSize'' = Inr (p_closedLotSize p)"
  unfolding patch_of_body_def bindE_Inr_iff
  by (elim exE conjE) auto

lemma put_rejects:
  assumes s: "b_state b = Some (Finite qs)" "math_trunc qs = 2"
    and c: "b_closePrice b = None \<or> (\<exists>q. b_closePrice b = Some (Finite q) \<and> math_trunc q = 0)"
  shows "rejected st (put_trade st idp b)"
proof (cases "bindE (toInt idp ''id'') (\<lambda>i. put_payload i b)")
  case (Inl e)
  then have "plain e"
    by (auto simp: bindE_Inl_iff dest: toInt_Inl put_payload_Inl)
  with Inl show ?thesis by (simp add: put_trade_def rejected_plain)
next
  case (Inr pl)
  then obtain i where "put_payload i b = Inr pl" by (auto simp: bindE_Inr_iff)
  from put_payload_Inr[OF this] s c
  have "state pl = Some 2" "closePrice pl = Some 0"
    by (auto simp: toInt_def toInt_or_zero_def)
  with Inr show ?thesis by (simp add: put_trade_def rejected_fail)
qed

lemma patch_rejects:
  assumes s: "b_state b = Some (Finite qs)" "math_trunc qs = 2"
    and c: "\<not> (\<exists>q. b_closePrice b = Some (Finite q) \<and> math_trunc q \<noteq> 0)"
    and e: "\<not> (\<exists>i row n. toInt idp ''id'' = Inr i \<and> st i = Some row \<and> closePrice row = Some n \<and> n \<noteq> 0)"
  shows "rejected st (patch_trade st idp b)"
proof (cases "bindE (toInt idp ''id'') (\<lambda>i.
           bindE (requireTradeExists st i) (\<lambda>existing.
           bindE (patch_of_body i b) (\<lambda>p. Inr (existing, p))))")
  case (Inl ex)
  then consider "plain ex" | "ex = Exn (Some 404) ''Trade not found''"
    by (auto simp: bindE_Inl_iff requireTradeExists_def split: option.splits
             dest: toInt_Inl patch_of_body_Inl)
  then have "rejected st (st, caught ex)"
  proof cases
    case 1 then show ?thesis by (rule rejected_plain)
  next
    case 2 then show ?thesis by (simp add: caught_def rejected_fail)
  qed
  with Inl show ?thesis by (simp add: patch_trade_def)
next
  case (Inr ep)
  obtain existing p where ep: "ep = (existing, p)" by (cases ep)
  from Inr ep obtain i where i: "toInt idp ''id'' = Inr i" "st i = Some existing"
    "patch_of_body i b = Inr p"
    by (auto simp: bindE_Inr_iff requireTradeExists_def split: option.splits)
  from patch_of_body_Inr[OF i(3)] s
  have ps: "p_state p = Some 2"
    by (auto simp: toInt_or_null_def toInt_def bindE_def)
  from patch_of_body_Inr[OF i(3)] c
  have pc: "p_closePrice p = None \<or> p_closePrice p = Some 0"
    by (cases "b_closePrice b")
       (auto simp: toInt_or_null_def toInt_def bindE_def split: jnum.splits)
  from e i have ec: "closePrice existing = None \<or> closePrice existing = Some 0"
    by (cases "closePrice existing") auto
  from ps pc ec have "closing_patch existing p = Inl (fail 400 ''state=2 requires closePrice != 0'')"
    by (auto simp: closing_patch_def)
  with Inr ep show ?thesis by (simp add: patch_trade_def rejected_fail)
qed

lemma patch_autofill:
  assumes s: "b_state b = Some (Finite qs)" "math_trunc qs = 2"
    and l: "b_closedLotSize b = None"
    and ok: "r_status (snd (patch_trade st idp b)) = 200"
    and i: "toInt idp ''id'' = Inr i" "st i = Some row"
  shows "\<exists>row'. fst (patch_trade st idp b) i = Some row' \<and> r_trade (snd (patch_trade st idp b)) = Some row' \<and>
           state row' = Some 2 \<and>
           closedLotSize row' = (case lotSize row of Some n \<Rightarrow> n | None \<Rightarrow> closedLotSize row)"
proof (cases "patch_of_body i b")
  case (Inl ex)
  from patch_of_body_Inl[OF this] Inl i ok show ?thesis
    by (simp add: patch_trade_def bindE_def requireTradeExists_def caught_plain fail_def)
next
  case (Inr p)
  from patch_of_body_Inr[OF Inr] s l
  have p: "p_id p = i" "p_state p = Some 2" "p_closedLotSize p = None"
    by (auto simp: toInt_or_null_def toInt_def bindE_def)
  show ?thesis
  proof (cases "closing_patch row p")
    case (Inl r)
    with p have "r = fail 400 ''state=2 requires closePrice != 0''"
      by (auto simp: closing_patch_def Let_def split: if_splits)
    with Inl Inr i ok show ?thesis
      by (simp add: patch_trade_def bindE_def requireTradeExists_def fail_def)
  next
    case (Inr p')
    with p have p': "p' = p\<lparr>p_closedLotSize := lotSize row\<rparr>"
      by (auto simp: closing_patch_def Let_def split: if_splits)
    from Inr \<open>patch_of_body i b = Inr p\<close> i
    have "patch_trade st idp b = (case patchTrade st p' of (st', t) \<Rightarrow> (st', succeed t))"
      by (simp add: patch_trade_def bindE_def requireTradeExists_def)
    with p p' i show ?thesis
      by (simp add: patchTrade_def Let_def succeed_def coalesce_def coalesce_nn_def split: option.splits)
  qed
qed

text \<open>
  Claim C9. A \<^verbatim>\<open>PUT /trade/:id\<close> whose state is 2 and whose close price is absent or
  0 is rejected: the answer is a 4xx error and the store is unchanged. A
  \<^verbatim>\<open>PATCH /trade/:id\<close> whose state is 2 is rejected in the same way unless the
  patch supplies a close price other than 0 or the stored row has one. A closing
  \<^verbatim>\<open>PATCH\<close> that is accepted and carries no \<^verbatim>\<open>closedLotSize\<close> stores the
  \<^verbatim>\<open>lotSize\<close> of the existing row as \<^verbatim>\<open>closedLotSize\<close> (and leaves it as it was when
  \<^verbatim>\<open>lotSize\<close> is NULL). Numbers are compared after \<^verbatim>\<open>Math.trunc\<close>, as \<^verbatim>\<open>toInt\<close>
  does.
\<close>

theorem close_requires_closePrice:
  "(b_state b1 = Some (Finite q1) \<and> math_trunc q1 = 2 \<and>
      (b_closePrice b1 = None \<or> (\<exists>q. b_closePrice b1 = Some (Finite q) \<and> math_trunc q = 0))
      \<longrightarrow> rejected st1 (put_trade st1 id1 b1))
   \<and> (b_state b2 = Some (Finite q2) \<and> math_trunc q2 = 2 \<and>
      \<not> (\<exists>q. b_closePrice b2 = Some (Finite q) \<and> math_trunc q \<noteq> 0) \<and>
      \<not> (\<exists>i row n. toInt id2 ''id'' = Inr i \<and> st2 i = Some row \<and> closePrice row = Some n \<and> n \<noteq> 0)
      \<longrightarrow> rejected st2 (patch_trade st2 id2 b2))
   \<and> (b_state b3 = Some (Finite q3) \<and> math_trunc q3 = 2 \<and> b_closedLotSize b3 = None \<and>
      r_status (snd (patch_trade st3 id3 b3)) = 200 \<and>
      toInt id3 ''id'' = Inr i3 \<and> st3 i3 = Some row3
      \<longrightarrow> (\<exists>row'. fst (patch_trade st3 id3 b3) i3 = Some row' \<and>
             r_trade (snd (patch_trade st3 id3 b3)) = Some row' \<and> state row' = Some 2 \<and>
             closedLotSize row' = (case lotSize row3 of Some n \<Rightarrow> n | None \<Rightarrow> closedLotSize row3)))"
  using put_rejects [of b1 q1 st1 id1] patch_rejects [of b2 q2 id2 st2]
    patch_autofill [of b3 q3 st3 id3 i3 row3]
  by blast

lemma trunc_simps: "math_trunc 2 = 2" "math_trunc 8 = 8" "math_trunc 71000000000 = 71000000000"
  by (simp_all add: math_trunc_def)

lemma example_patch_accepted:
  "r_status (snd (patch_trade example_store (Some (Finite 8))
      (closing_body\<lparr>b_closePrice := Some (Finite 71000000000)\<rparr>))) = 200"
  by (simp add: patch_trade_def bindE_def toInt_def trunc_simps requireTradeExists_def
      example_store_def patch_of_body_def toInt_or_null_def closing_body_def closing_patch_def
      patchTrade_def succeed_def Let_def)

theorem close_requires_closePrice_witness:
  "rejected Map.empty (put_trade Map.empty (Some (Finite 8)) closing_body) \<and>
   rejected example_store (patch_trade example_store (Some (Finite 8)) closing_body) \<and>
   (\<exists>row'. fst (patch_trade example_store (Some (Finite 8))
               (closing_body\<lparr>b_closePrice := Some (Finite 71000000000)\<rparr>)) 8 = Some row' \<and>
           state row' = Some 2 \<and> closedLotSize row' = 3)"
proof -
  have h1: "b_state closing_body = Some (Finite 2) \<and> math_trunc 2 = 2 \<and>
      (b_closePrice closing_body = None \<or>
       (\<exists>q. b_closePrice closing_body = Some (Finite q) \<and> math_trunc q = 0))"
    by (simp add: closing_body_def trunc_simps)
  have h2: "b_state closing_body = Some (Finite 2) \<and> math_trunc 2 = 2 \<and>
      \<not> (\<exists>q. b_closePrice closing_body = Some (Finite q) \<and> math_trunc q \<noteq> 0) \<and>
      \<not> (\<exists>i row n. toInt (Some (Finite 8)) ''id'' = Inr i \<and> example_store i = Some row \<and>
             closePrice row = Some n \<and> n \<noteq> 0)"
    by (simp add: closing_body_def trunc_simps toInt_def example_store_def example_open_def)
  have h3: "b_state (closing_body\<lparr>b_closePrice := Some (Finite 71000000000)\<rparr>) = Some (Finite 2) \<and>
      math_trunc 2 = 2 \<and>
      b_closedLotSize (closing_body\<lparr>b_closePrice := Some (Finite 71000000000)\<rparr>) = None \<and>
      r_status (snd (patch_trade example_store (Some (Finite 8))
        (closing_body\<lparr>b_closePrice := Some (Finite 71000000000)\<rparr>))) = 200 \<and>
      toInt (Some (Finite 8)) ''id'' = Inr 8 \<and> example_store 8 = Some example_open"
    using example_patch_accepted
    by (simp add: closing_body_def trunc_simps toInt_def example_store_def)
  have l: "lotSize example_open = Some 3" by (simp add: example_open_def)
  from close_requires_closePrice [of closing_body 2 Map.empty "Some (Finite 8)"
      closing_body 2 "Some (Finite 8)" example_store
      "closing_body\<lparr>b_closePrice := Some (Finite 71000000000)\<rparr>" 2 example_store
      "Some (Finite 8)" 8 example_open] h1 h2 h3 l
  show ?thesis by auto
qed


section \<open>Properties of the wallet pool\<close>

lemma scan_Some:
  "scan p t tries = Some i \<Longrightarrow>
     i < length (wallets p) \<and> i < length (busyUntil p) \<and> busyUntil p ! i \<le> t"
proof (induction p t tries rule: scan.induct)
  case (1 p t tries)
  show ?case
  proof (cases "tries < length (wallets p)")
    case False
    with "1.prems" show ?thesis by (subst (asm) scan.simps) simp
  next
    case True
    let ?i = "(nextIndex p + tries) mod length (wallets p)"
    show ?thesis
    proof (cases "?i < length (busyUntil p) \<and> busyUntil p ! ?i \<le> t")
      case hit: True
      with True "1.prems" have "i = ?i" by (subst (asm) scan.simps) (simp add: Let_def)
      moreover from True have "0 < length (wallets p)" by linarith
      then have "?i < length (wallets p)" by (rule mod_less_divisor)
      ultimately show ?thesis using hit by simp
    next
      case miss: False
      with True "1.prems" have "scan p t (tries + 1) = Some i"
        by (subst (asm) scan.simps) (auto simp: Let_def)
      with "1.IH"[OF True refl miss] show ?thesis by simp
    qed
  qed
qed

lemma acquire_step_Returned:
  assumes "acquire_step p t = (Returned w, p')"
  shows "\<exists>i. i < length (wallets p) \<and> i < length (busyUntil p) \<and> busyUntil p ! i \<le> t \<and>
             w = wallets p ! i \<and> wallets p' = wallets p \<and>
             perWalletDelayMs p' = perWalletDelayMs p \<and>
             busyUntil p' = (busyUntil p)[i := t + perWalletDelayMs p]"
proof (cases "scan p t 0")
  case None
  with assms show ?thesis by (simp add: acquire_step_def)
next
  case (Some i)
  from scan_Some[OF Some] Some assms show ?thesis
    by (auto simp: acquire_step_def)
qed

lemma acquire_step_Sleep:
  assumes "acquire_step p t = (Sleep ms, p')"
  shows "p' = p \<and> ms = (case earliest (busyUntil p) of None \<Rightarrow> None | Some e \<Rightarrow> Some (max 10 (e - t)))"
  using assms by (cases "scan p t 0") (auto simp: acquire_step_def)

lemma pool_ok_step:
  assumes "pool_ok p" and "acquire_step p t = (out, p')"
  shows "pool_ok p' \<and> wallets p' = wallets p \<and> perWalletDelayMs p' = perWalletDelayMs p"
proof (cases out)
  case (Returned w)
  with acquire_step_Returned[of p t w p'] assms show ?thesis
    by (auto simp: pool_ok_def)
next
  case (Sleep ms)
  with acquire_step_Sleep[of p t ms p'] assms show ?thesis by simp
qed

lemma passes_length: "length (passes p clock) = length clock"
  by (induction clock arbitrary: p) (auto split: prod.splits)

lemma returned_lower_bound:
  assumes "pool_ok p" and "0 \<le> perWalletDelayMs p"
    and "j < length clock" and "k < length (wallets p)"
    and "passes p clock ! j = Returned (wallets p ! k)"
  shows "busyUntil p ! k \<le> clock ! j"
  using assms
proof (induction clock arbitrary: p j)
  case Nil
  then show ?case by simp
next
  case (Cons t later)
  obtain out p' where st: "acquire_step p t = (out, p')" by (cases "acquire_step p t")
  from pool_ok_step[OF Cons.prems(1) st]
  have ok': "pool_ok p'" and w': "wallets p' = wallets p"
    and d': "perWalletDelayMs p' = perWalletDelayMs p" by simp_all
  show ?case
  proof (cases j)
    case 0
    with Cons.prems(5) st have out: "out = Returned (wallets p ! k)" by simp
    from acquire_step_Returned[OF st[unfolded out]] obtain i where
      i: "i < length (wallets p)" "busyUntil p ! i \<le> t" "wallets p ! k = wallets p ! i"
      by auto
    from Cons.prems(1) i(1,3) Cons.prems(4) have "i = k"
      by (auto simp: pool_ok_def nth_eq_iff_index_eq)
    with i(2) 0 show ?thesis by simp
  next
    case (Suc j')
    with Cons.prems(3,5) st w' have j': "j' < length later"
      "passes p' later ! j' = Returned (wallets p' ! k)" by simp_all
    from Cons.IH[OF ok' _ j'(1) _ j'(2)] d' w' Cons.prems(2,4)
    have le: "busyUntil p' ! k \<le> later ! j'" by simp
    have "busyUntil p ! k \<le> busyUntil p' ! k"
    proof (cases out)
      case (Sleep ms)
      with acquire_step_Sleep[of p t ms p'] st show ?thesis by simp
    next
      case (Returned w)
      with acquire_step_Returned[of p t w p'] st obtain i where
        i: "i < length (busyUntil p)" "busyUntil p ! i \<le> t"
          "busyUntil p' = (busyUntil p)[i := t + perWalletDelayMs p]" by auto
      show ?thesis
      proof (cases "i = k")
        case True
        with i Cons.prems(2) show ?thesis by simp
      next
        case False
        with i show ?thesis by simp
      qed
    qed
    with le Suc show ?thesis by simp
  qed
qed

lemma returned_spacing:
  assumes "pool_ok p" and "0 \<le> perWalletDelayMs p"
    and "i < j" and "j < length clock"
    and "passes p clock ! i = Returned w" and "passes p clock ! j = Returned w"
  shows "clock ! i + perWalletDelayMs p \<le> clock ! j"
  using assms
proof (induction clock arbitrary: p i j)
  case Nil
  then show ?case by simp
next
  case (Cons t later)
  obtain out p' where st: "acquire_step p t = (out, p')" by (cases "acquire_step p t")
  from pool_ok_step[OF Cons.prems(1) st]
  have ok': "pool_ok p'" and w': "wallets p' = wallets p"
    and d': "perWalletDelayMs p' = perWalletDelayMs p" by simp_all
  from Cons.prems(3) obtain j' where j: "j = Suc j'" by (cases j) auto
  with Cons.prems(4,6) st have j': "j' < length later" "passes p' later ! j' = Returned w"
    by simp_all
  show ?case
  proof (cases i)
    case 0
    with Cons.prems(5) st have out: "out = Returned w" by simp
    from acquire_step_Returned[OF st[unfolded out]] obtain k where
      k: "k < length (wallets p)" "k < length (busyUntil p)" "w = wallets p ! k"
        "busyUntil p' = (busyUntil p)[k := t + perWalletDelayMs p]" by auto
    from returned_lower_bound[OF ok' _ j'(1), of k] j'(2) k d' w' Cons.prems(2)
    have "busyUntil p' ! k \<le> later ! j'" by simp
    with k 0 j show ?thesis by simp
  next
    case (Suc i')
    with Cons.prems(3,5) j st have "i' < j'" "passes p' later ! i' = Returned w" by simp_all
    from Cons.IH[OF ok' _ this(1) j'(1) this(2) j'(2)] d' Cons.prems(2) Suc j
    show ?thesis by simp
  qed
qed

lemma sleep_at_least_10:
  assumes "pool_ok p" and "k < length clock" and "passes p clock ! k = Sleep ms"
  shows "\<exists>n. ms = Some n \<and> 10 \<le> n"
  using assms
proof (induction clock arbitrary: p k)
  case Nil
  then show ?case by simp
next
  case (Cons t later)
  obtain out p' where st: "acquire_step p t = (out, p')" by (cases "acquire_step p t")
  from pool_ok_step[OF Cons.prems(1) st] have ok': "pool_ok p'" by simp
  show ?case
  proof (cases k)
    case 0
    with Cons.prems(3) st have "out = Sleep ms" by simp
    with acquire_step_Sleep[of p t ms p'] st Cons.prems(1) show ?thesis
      by (cases "busyUntil p") (auto simp: earliest_def pool_ok_def)
  next
    case (Suc k')
    with Cons.prems(2,3) st have "k' < length later" "passes p' later ! k' = Sleep ms" by simp_all
    from Cons.IH[OF ok' this] show ?thesis .
  qed
qed

lemma new_WalletPool_ok:
  "new_WalletPool keys d = Inr p \<Longrightarrow> distinct keys \<Longrightarrow> pool_ok p \<and> perWalletDelayMs p = d"
  by (auto simp: new_WalletPool_def pool_ok_def split: if_splits)

text \<open>
  Claim C6. For a pool built from \<open>N \<ge> 1\<close> distinct keys with delay \<open>d\<close> and any
  sequence of passes of \<^verbatim>\<open>acquire\<close> at clock readings \<open>clock\<close>: no wallet is
  returned by two passes whose clock readings are less than \<open>d\<close> apart; a pass that
  finds every wallet busy sleeps for at least 10 ms; and the constructor fails on an
  empty key list.
\<close>

theorem acquire_spacing:
  assumes "new_WalletPool keys d = Inr p" and "distinct keys"
  shows "(\<forall>i j w. i < j \<and> j < length clock \<and>
            passes p clock ! i = Returned w \<and> passes p clock ! j = Returned w
            \<longrightarrow> \<not> \<bar>clock ! j - clock ! i\<bar> < d)
       \<and> (\<forall>k ms. k < length clock \<and> passes p clock ! k = Sleep ms \<longrightarrow> (\<exists>n. ms = Some n \<and> 10 \<le> n))
       \<and> (\<exists>msg. new_WalletPool ([] :: 'a list) d = Inl (Error msg))"
proof -
  from new_WalletPool_ok[OF assms] have ok: "pool_ok p" and d: "perWalletDelayMs p = d"
    by simp_all
  have "\<not> \<bar>clock ! j - clock ! i\<bar> < d"
    if "i < j" "j < length clock" "passes p clock ! i = Returned w" "passes p clock ! j = Returned w"
    for i j w
  proof (cases "0 \<le> d")
    case True
    from returned_spacing[OF ok _ that] True d show ?thesis by simp
  next
    case False
    then show ?thesis by simp
  qed
  moreover have "\<exists>n. ms = Some n \<and> 10 \<le> n"
    if "k < length clock" "passes p clock ! k = Sleep ms" for k ms
    using sleep_at_least_10[OF ok that] .
  moreover have "\<exists>msg. new_WalletPool ([] :: 'a list) d = Inl (Error msg)"
    by (simp add: new_WalletPool_def)
  ultimately show ?thesis by blast
qed

lemma example_passes:
  "passes example_pool example_clock =
     [Returned ''key-a'', Returned ''key-b'', Sleep (Some 998), Sleep (Some 500),
      Returned ''key-a'', Returned ''key-b'']"
  by (simp add: example_pool_def example_clock_def acquire_step_def scan.simps Let_def earliest_def)

theorem acquire_spacing_witness:
  "new_WalletPool [''key-a'', ''key-b''] 1000 = Inr example_pool \<and>
   distinct [''key-a'', ''key-b''] \<and>
   (0 :: nat) < 4 \<and> 4 < length example_clock \<and>
   passes example_pool example_clock ! 0 = Returned ''key-a'' \<and>
   passes example_pool example_clock ! 4 = Returned ''key-a'' \<and>
   \<not> \<bar>example_clock ! 4 - example_clock ! 0\<bar> < 1000 \<and>
   2 < length example_clock \<and>
   passes example_pool example_clock ! 2 = Sleep (Some 998) \<and>
   (\<exists>n. Some 998 = Some n \<and> (10 :: int) \<le> n)"
proof -
  have n: "new_WalletPool [''key-a'', ''key-b''] 1000 = Inr example_pool"
    by (simp add: new_WalletPool_def example_pool_def)
  have d: "distinct [''key-a'', ''key-b'']" by simp
  have l: "(0 :: nat) < 4" "4 < length example_clock" "2 < length example_clock"
    by (simp_all add: example_clock_def)
  have r: "passes example_pool example_clock ! 0 = Returned ''key-a''"
    "passes example_pool example_clock ! 4 = Returned ''key-a''"
    "passes example_pool example_clock ! 2 = Sleep (Some 998)"
    by (simp_all add: example_passes)
  note t = acquire_spacing [OF n d, of example_clock]
  from t l r have "\<not> \<bar>example_clock ! 4 - example_clock ! 0\<bar> < 1000" by blast
  moreover from t l r have "\<exists>n. Some 998 = Some n \<and> (10 :: int) \<le> n" by blast
  ultimately show ?thesis using n d l r by blast
qed


section \<open>Properties of states-mode reconciliation\<close>

lemma split_ids_eq:
  "split_ids e mx ids =
     (filter (\<lambda>i. \<not> i > mx \<and> \<not> db_exists e i) ids,
      filter (\<lambda>i. \<not> i > mx \<and> db_exists e i) ids)"
  by (induction ids) (auto split: prod.splits)

lemma states_loop_patches: "fst (states_loop e present sts) = []"
proof (induction present arbitrary: sts)
  case Nil
  show ?case by simp
next
  case (Cons i present)
  obtain ps nf where r: "states_loop e present (tl sts) = (ps, nf)"
    by (cases "states_loop e present (tl sts)")
  with Cons.IH[of "tl sts"] have "ps = []" by simp
  with r show ?case by (simp add: Let_def split: option.splits)
qed

lemma states_loop_needFull:
  "snd (states_loop e present (map ledger present)) = filter (differs e ledger) present"
proof (induction present)
  case Nil
  show ?case by simp
next
  case (Cons i present)
  obtain ps nf where r: "states_loop e present (map ledger present) = (ps, nf)"
    by (cases "states_loop e present (map ledger present)")
  with Cons.IH have nf: "nf = filter (differs e ledger) present" by simp
  show ?case
  proof (cases "db_getRow e i")
    case None
    then have "differs e ledger i" by (simp add: differs_def)
    with None r nf show ?thesis by simp
  next
    case (Some row)
    then have "differs e ledger i \<longleftrightarrow>
        ledger i \<noteq> (case row_state row of None \<Rightarrow> 0 | Some s \<Rightarrow> s)"
      by (simp add: differs_def)
    with Some r nf show ?thesis by (simp add: Let_def)
  qed
qed

lemma fetched_ids_append: "fetched_ids (xs @ ys) = fetched_ids xs @ fetched_ids ys"
  by (induction xs rule: fetched_ids.induct) simp_all

lemma upserted_ids_append: "upserted_ids (xs @ ys) = upserted_ids xs @ upserted_ids ys"
  by (induction xs rule: upserted_ids.induct) simp_all

lemma map_id_zip:
  "length ids \<le> length trades \<Longrightarrow>
     map id_col (map (\<lambda>(i, t). tradeToPayload i t) (zip ids trades)) = ids"
proof (induction ids arbitrary: trades)
  case Nil
  then show ?case by simp
next
  case (Cons i ids)
  then show ?case by (cases trades) (simp_all add: tradeToPayload_def)
qed

lemma syncFull_Inr:
  assumes "syncFull e ids = (Inr n, tr)"
  shows "fetched_ids tr = ids \<and> upserted_ids tr = ids \<and> (\<forall>c \<in> set tr. \<not> is_state_patch c)"
proof (cases "ids = []")
  case True
  with assms show ?thesis by (simp add: syncFull_def)
next
  case False
  show ?thesis
  proof (cases "getTradesFromList e ids")
    case (Inl err)
    with False assms show ?thesis by (simp add: syncFull_def)
  next
    case (Inr trades)
    show ?thesis
    proof (cases "length trades < length ids")
      case True
      with Inr False assms show ?thesis by (simp add: syncFull_def)
    next
      case long: False
      then have m: "map id_col (map (\<lambda>(i, t). tradeToPayload i t) (zip ids trades)) = ids"
        by (intro map_id_zip) simp
      from long Inr False assms show ?thesis
        unfolding syncFull_def Let_def
        by (cases "batchUpsert e (map (\<lambda>(i, t). tradeToPayload i t) (zip ids trades))")
           (use m in \<open>auto simp: comp_def\<close>)
    qed
  qed
qed

lemma syncFull_no_patch: "\<forall>c \<in> set (snd (syncFull e ids)). \<not> is_state_patch c"
  unfolding syncFull_def Let_def
  by (auto split: sum.splits if_splits)

lemma full_or_skip:
  assumes "(if length xs \<noteq> 0 then syncFull e xs else (Inr 0, [])) = (r, tr)"
  shows "(\<forall>c \<in> set tr. \<not> is_state_patch c) \<and>
         (\<forall>n. r = Inr n \<longrightarrow> fetched_ids tr = xs \<and> upserted_ids tr = xs)"
proof (cases "xs = []")
  case True
  with assms show ?thesis by auto
next
  case False
  with assms have s: "syncFull e xs = (r, tr)" by simp
  from syncFull_no_patch[of e xs] s have "\<forall>c \<in> set tr. \<not> is_state_patch c" by simp
  moreover have "fetched_ids tr = xs \<and> upserted_ids tr = xs" if "r = Inr n" for n
    using syncFull_Inr[of e xs n tr] s that by simp
  ultimately show ?thesis by blast
qed

lemma syncStates_trace:
  assumes run: "syncStates e ids mx = (r, tr)"
  defines "missing \<equiv> filter (\<lambda>i. \<not> i > mx \<and> \<not> db_exists e i) ids"
    and "present \<equiv> filter (\<lambda>i. \<not> i > mx \<and> db_exists e i) ids"
  shows "(\<forall>c \<in> set tr. \<not> is_state_patch c) \<and>
         (\<forall>res. r = Inr res \<and> getTradeStatesFromList e = (\<lambda>L. Inr (map ledger L)) \<longrightarrow>
            patched res = 0 \<and>
            fetched_ids tr = missing @ filter (differs e ledger) present \<and>
            upserted_ids tr = missing @ filter (differs e ledger) present)"
proof -
  obtain r1 tr1 where f1: "(if length missing \<noteq> 0 then syncFull e missing else (Inr 0, [])) = (r1, tr1)"
    by (cases "if length missing \<noteq> 0 then syncFull e missing else (Inr 0, [])")
  note p1 = full_or_skip[OF f1]
  note run' = run[unfolded syncStates_def split_ids_eq prod.case, folded missing_def present_def]
  show ?thesis
  proof (cases r1)
    case (Inl err)
    with run' f1 have "r = Inl err" "tr = tr1"
      by simp_all
    with p1 show ?thesis by simp
  next
    case up: (Inr n1)
    show ?thesis
    proof (cases "present = []")
      case True
      with run' f1 up have "tr = tr1"
        by simp
      moreover from run' f1 up True have "\<And>res. r = Inr res \<Longrightarrow> patched res = 0"
        by auto
      ultimately show ?thesis using p1 up True by auto
    next
      case ne: False
      show ?thesis
      proof (cases "getTradeStatesFromList e present")
        case (Inl err)
        with run' f1 up ne have "r = Inl err" "tr = tr1 @ [CallGetTradeStatesFromList present]"
          by simp_all
        with p1 show ?thesis by simp
      next
        case st: (Inr sts)
        obtain ps nf where sl: "states_loop e present sts = (ps, nf)"
          by (cases "states_loop e present sts")
        with states_loop_patches[of e present sts] have ps: "ps = []" by simp
        obtain r4 tr4 where f4: "(if length nf \<noteq> 0 then syncFull e nf else (Inr 0, [])) = (r4, tr4)"
          by (cases "if length nf \<noteq> 0 then syncFull e nf else (Inr 0, [])")
        note p4 = full_or_skip[OF f4]
        from run' f1 up ne st sl ps f4
        have tr: "tr = tr1 @ [CallGetTradeStatesFromList present] @ tr4"
          and r: "\<And>res. r = Inr res \<Longrightarrow> patched res = 0 \<and> (\<exists>n. r4 = Inr n)"
          by (auto simp add: Let_def split: sum.splits)
        have np: "\<forall>c \<in> set tr. \<not> is_state_patch c"
          using p1 p4 tr by auto
        have "patched res = 0 \<and>
              fetched_ids tr = missing @ filter (differs e ledger) present \<and>
              upserted_ids tr = missing @ filter (differs e ledger) present"
          if h: "r = Inr res" "getTradeStatesFromList e = (\<lambda>L. Inr (map ledger L))" for res
        proof -
          from h(2) st have "sts = map ledger present" by simp
          with sl states_loop_needFull[of e present ledger]
          have nf: "nf = filter (differs e ledger) present" by simp
          from r[OF h(1)] obtain n4 where "r4 = Inr n4" by blast
          with p4 have "fetched_ids tr4 = nf" "upserted_ids tr4 = nf" by simp_all
          moreover from p1 up have "fetched_ids tr1 = missing" "upserted_ids tr1 = missing"
            by simp_all
          ultimately show ?thesis
            using tr nf r[OF h(1)] by (simp add: fetched_ids_append upserted_ids_append)
        qed
        with np show ?thesis by blast
      qed
    qed
  qed
qed

lemma count_list_distinct: "distinct xs \<Longrightarrow> x \<in> set xs \<Longrightarrow> count_list xs x = 1"
  by (induction xs) (auto simp: count_list_0_iff)

text \<open>
  Claim C5. A run of \<^verbatim>\<open>syncStates\<close> never calls \<^verbatim>\<open>batchPatchStates\<close>: its only
  write is the wholesale \<^verbatim>\<open>batchUpsert\<close> of \<^verbatim>\<open>syncFull\<close>. When the run is over a
  list of distinct ids, the ledger answers with the state \<open>ledger i\<close> of each id
  and the run completes, then every id up to the maximum that is absent from the
  database, and every present id whose stored state is not \<open>ledger i\<close>, is fetched
  in full and upserted exactly once.
\<close>

theorem syncStates_escalates:
  "(\<forall>c \<in> set (snd (syncStates e ids mx)). \<not> is_state_patch c)
   \<and> (distinct ids \<and> getTradeStatesFromList e = (\<lambda>L. Inr (map ledger L)) \<and>
      syncStates e ids mx = (Inr res, tr) \<longrightarrow>
        patched res = 0 \<and>
        (\<forall>i \<in> set ids. i \<le> mx \<and> \<not> db_exists e i \<longrightarrow>
           count_list (fetched_ids tr) i = 1 \<and> count_list (upserted_ids tr) i = 1) \<and>
        (\<forall>i \<in> set ids. \<forall>row s.
           i \<le> mx \<and> db_exists e i \<and> db_getRow e i = Some row \<and> row_state row = Some s \<and>
           ledger i \<noteq> s \<longrightarrow>
           count_list (fetched_ids tr) i = 1 \<and> count_list (upserted_ids tr) i = 1))"
proof -
  let ?missing = "filter (\<lambda>i. \<not> i > mx \<and> \<not> db_exists e i) ids"
  let ?present = "filter (\<lambda>i. \<not> i > mx \<and> db_exists e i) ids"
  let ?full = "?missing @ filter (differs e ledger) ?present"
  have a: "\<forall>c \<in> set (snd (syncStates e ids mx)). \<not> is_state_patch c"
    using syncStates_trace[of e ids mx "fst (syncStates e ids mx)" "snd (syncStates e ids mx)"]
    by simp
  have b: "patched res = 0 \<and>
        (\<forall>i \<in> set ids. i \<le> mx \<and> \<not> db_exists e i \<longrightarrow>
           count_list (fetched_ids tr) i = 1 \<and> count_list (upserted_ids tr) i = 1) \<and>
        (\<forall>i \<in> set ids. \<forall>row s.
           i \<le> mx \<and> db_exists e i \<and> db_getRow e i = Some row \<and> row_state row = Some s \<and>
           ledger i \<noteq> s \<longrightarrow>
           count_list (fetched_ids tr) i = 1 \<and> count_list (upserted_ids tr) i = 1)"
    if h: "distinct ids" "getTradeStatesFromList e = (\<lambda>L. Inr (map ledger L))"
      "syncStates e ids mx = (Inr res, tr)"
  proof -
    from syncStates_trace[OF h(3), of ledger] h(2)
    have p: "patched res = 0" and f: "fetched_ids tr = ?full" and u: "upserted_ids tr = ?full"
      by simp_all
    from h(1) have d: "distinct ?full" by auto
    have m: "count_list ?full i = 1" if "i \<in> set ids" "i \<le> mx" "\<not> db_exists e i" for i
      using that by (intro count_list_distinct[OF d]) auto
    have n: "count_list ?full i = 1"
      if "i \<in> set ids" "i \<le> mx" "db_exists e i" "db_getRow e i = Some row"
        "row_state row = Some s" "ledger i \<noteq> s" for i row s
    proof -
      from that(4-6) have "differs e ledger i" by (simp add: differs_def)
      with that(1-3) show ?thesis by (intro count_list_distinct[OF d]) auto
    qed
    from p m n show ?thesis unfolding f u by blast
  qed
  from a b show ?thesis by blast
qed

lemma example_sync_run:
  "syncStates example_env [1, 2, 3] 3 =
     (Inr \<lparr>patched = 0, upsertedMissing = 1, fullForClosed = 1\<rparr>,
      [CallGetTradesFromList [3], CallBatchUpsert [tradeToPayload 3 example_chain_trade],
       CallGetTradeStatesFromList [1, 2],
       CallGetTradesFromList [1], CallBatchUpsert [tradeToPayload 1 example_chain_trade]])"
  by (simp add: syncStates_def syncFull_def example_env_def example_ledger_def Let_def)

theorem syncStates_escalates_witness:
  "distinct [1, 2, 3 :: int] \<and>
   getTradeStatesFromList example_env = (\<lambda>L. Inr (map example_ledger L)) \<and>
   syncStates example_env [1, 2, 3] 3 =
     (Inr \<lparr>patched = 0, upsertedMissing = 1, fullForClosed = 1\<rparr>,
      [CallGetTradesFromList [3], CallBatchUpsert [tradeToPayload 3 example_chain_trade],
       CallGetTradeStatesFromList [1, 2],
       CallGetTradesFromList [1], CallBatchUpsert [tradeToPayload 1 example_chain_trade]]) \<and>
   (3 :: int) \<in> set [1, 2, 3] \<and> (3 :: int) \<le> 3 \<and> \<not> db_exists example_env 3 \<and>
   (1 :: int) \<in> set [1, 2, 3] \<and> (1 :: int) \<le> 3 \<and> db_exists example_env 1 \<and>
   db_getRow example_env 1 = Some \<lparr>row_id = 1, row_state = Some 0, row_stopLoss = 0, row_takeProfit = 0\<rparr> \<and>
   example_ledger 1 \<noteq> 0 \<and>
   count_list (upserted_ids (snd (syncStates example_env [1, 2, 3] 3))) 3 = 1 \<and>
   count_list (upserted_ids (snd (syncStates example_env [1, 2, 3] 3))) 1 = 1 \<and>
   filter is_state_patch (snd (syncStates example_env [1, 2, 3] 3)) = []"
proof -
  have d: "distinct [1, 2, 3 :: int]" by simp
  have g: "getTradeStatesFromList example_env = (\<lambda>L. Inr (map example_ledger L))"
    by (simp add: example_env_def)
  have x: "(3 :: int) \<in> set [1, 2, 3] \<and> (3 :: int) \<le> 3 \<and> \<not> db_exists example_env 3"
    "(1 :: int) \<in> set [1, 2, 3] \<and> (1 :: int) \<le> 3 \<and> db_exists example_env 1 \<and>
     db_getRow example_env 1 = Some \<lparr>row_id = 1, row_state = Some 0, row_stopLoss = 0, row_takeProfit = 0\<rparr> \<and>
     row_state \<lparr>row_id = 1, row_state = Some 0, row_stopLoss = 0, row_takeProfit = 0\<rparr> = Some 0 \<and>
     example_ledger 1 \<noteq> 0"
    by (simp_all add: example_env_def example_ledger_def)
  note t = syncStates_escalates [of example_env "[1, 2, 3]" 3 example_ledger
      "\<lparr>patched = 0, upsertedMissing = 1, fullForClosed = 1\<rparr>"
      "snd (syncStates example_env [1, 2, 3] 3)"]
  have r: "syncStates example_env [1, 2, 3] 3 =
     (Inr \<lparr>patched = 0, upsertedMissing = 1, fullForClosed = 1\<rparr>,
      snd (syncStates example_env [1, 2, 3] 3))"
    by (simp add: example_sync_run)
  from t d g r x(1) have c3: "count_list (upserted_ids (snd (syncStates example_env [1, 2, 3] 3))) 3 = 1"
    by blast
  from t d g r x(2) have c1: "count_list (upserted_ids (snd (syncStates example_env [1, 2, 3] 3))) 1 = 1"
    by blast
  from t have np: "\<forall>c \<in> set (snd (syncStates example_env [1, 2, 3] 3)). \<not> is_state_patch c"
    by blast
  from np have nf: "filter is_state_patch (snd (syncStates example_env [1, 2, 3] 3)) = []"
    by (simp add: filter_empty_conv)
  from d g example_sync_run x c3 c1 nf show ?thesis by blast
qed


section \<open>Properties of the execution orchestrator\<close>

lemma enqueue_recentlySent [simp]: "recentlySent (enqueue st i) = recentlySent st"
  by (simp add: enqueue_def)

lemma enqueue_caches [simp]:
  "lockedCache (enqueue st i) = lockedCache st"
  "lpFreeCache_ts (enqueue st i) = lpFreeCache_ts st"
  "lpFreeCache_valueE6 (enqueue st i) = lpFreeCache_valueE6 st"
  by (simp_all add: enqueue_def)

lemma getTradeLockedE6_facts:
  assumes "getTradeLockedE6 st i env = (r, st', tr)"
  shows "recentlySent st' = recentlySent st \<and> pending st' = pending st \<and>
         lpFreeCache_ts st' = lpFreeCache_ts st \<and> lpFreeCache_valueE6 st' = lpFreeCache_valueE6 st \<and>
         (\<forall>ev \<in> set tr. \<not> downstream ev \<and> ev \<noteq> ResyncEnqueue i)"
  using assms unfolding getTradeLockedE6_def
  by (auto split: option.splits sum.splits)

lemma getLpFreeCapitalE6_facts:
  assumes "getLpFreeCapitalE6 cfg st env = (r, st', tr)"
  shows "recentlySent st' = recentlySent st \<and> pending st' = pending st \<and>
         (\<forall>ev \<in> set tr. \<not> downstream ev \<and> ev \<noteq> ResyncEnqueue i)"
  using assms unfolding getLpFreeCapitalE6_def
  by (auto split: if_splits sum.splits)

lemma getTradeLockedE6_fst:
  "lockedCache st1 = lockedCache st2 \<Longrightarrow>
     fst (getTradeLockedE6 st1 i env) = fst (getTradeLockedE6 st2 i env)"
  unfolding getTradeLockedE6_def by (auto split: option.splits sum.splits)

lemma getLpFreeCapitalE6_fst:
  "lpFreeCache_ts st1 = lpFreeCache_ts st2 \<Longrightarrow> lpFreeCache_valueE6 st1 = lpFreeCache_valueE6 st2 \<Longrightarrow>
     fst (getLpFreeCapitalE6 cfg st1 env) = fst (getLpFreeCapitalE6 cfg st2 env)"
  unfolding getLpFreeCapitalE6_def by (auto split: sum.splits)

lemma admission_check_facts:
  assumes "admission_check cfg st i env = (a, st', tr)"
  shows "recentlySent st' = recentlySent st \<and> (\<forall>ev \<in> set tr. \<not> downstream ev)"
proof -
  obtain r1 st1 tr1 where g: "getTradeLockedE6 st i env = (r1, st1, tr1)"
    by (cases "getTradeLockedE6 st i env")
  note f1 = getTradeLockedE6_facts[OF g]
  show ?thesis
  proof (cases r1)
    case (Inl err)
    with assms g f1 show ?thesis by (simp add: admission_check_def)
  next
    case (Inr locked)
    show ?thesis
    proof (cases "locked \<le> 0")
      case True
      with Inr assms g f1 show ?thesis by (auto simp: admission_check_def)
    next
      case False
      obtain r2 st2 tr2 where l: "getLpFreeCapitalE6 cfg st1 env = (r2, st2, tr2)"
        by (cases "getLpFreeCapitalE6 cfg st1 env")
      note f2 = getLpFreeCapitalE6_facts[OF l]
      from False Inr assms g l f1 f2 show ?thesis
        by (cases r2) (auto simp: admission_check_def split: if_splits)
    qed
  qed
qed

lemma admission_check_zero:
  assumes "admission_check cfg st i env = (a, st', tr)"
    and "fst (getTradeLockedE6 st i env) = Inr locked" and "locked \<le> 0"
  shows "a = Skipped \<and> ResyncEnqueue i \<in> set tr \<and>
         pending st' = (if i \<le> 0 then pending st else insert i (pending st))"
proof -
  obtain r1 st1 tr1 where g: "getTradeLockedE6 st i env = (r1, st1, tr1)"
    by (cases "getTradeLockedE6 st i env")
  with assms(2) have r1: "r1 = Inr locked" by simp
  from getTradeLockedE6_facts[OF g] have p: "pending st1 = pending st" by simp
  from g r1 assms(3)
  have "admission_check cfg st i env = (Skipped, enqueue st1 i, tr1 @ [ResyncEnqueue i])"
    by (simp add: admission_check_def)
  with assms(1) have "a = Skipped" "st' = enqueue st1 i" "tr = tr1 @ [ResyncEnqueue i]"
    by simp_all
  moreover have "pending (enqueue st1 i) = (if i \<le> 0 then pending st else insert i (pending st))"
    using p by (simp add: enqueue_def)
  ultimately show ?thesis by simp
qed

lemma admission_check_short:
  assumes "admission_check cfg st i env = (a, st', tr)"
    and "fst (getTradeLockedE6 st i env) = Inr locked" and "locked \<noteq> 0"
    and "fst (getLpFreeCapitalE6 cfg st env) = Inr free" and "int free < locked"
  shows "a = Skipped \<and> ResyncEnqueue i \<notin> set tr \<and> pending st' = pending st"
proof -
  obtain r1 st1 tr1 where g: "getTradeLockedE6 st i env = (r1, st1, tr1)"
    by (cases "getTradeLockedE6 st i env")
  with assms(2) have r1: "r1 = Inr locked" by simp
  note f1 = getTradeLockedE6_facts[OF g]
  obtain r2 st2 tr2 where l: "getLpFreeCapitalE6 cfg st1 env = (r2, st2, tr2)"
    by (cases "getLpFreeCapitalE6 cfg st1 env")
  from getLpFreeCapitalE6_fst[of st1 st cfg env] f1 assms(4) l have r2: "r2 = Inr free"
    by simp
  note f2 = getLpFreeCapitalE6_facts[OF l, of i]
  from assms(5) have pos: "\<not> locked \<le> 0" by simp
  from assms(1,5) pos g r1 l r2 f1 f2 show ?thesis
    by (auto simp: admission_check_def)
qed

lemma try_block_recentlySent:
  assumes "try_block st kind i a env = (r, st', tr)"
  shows "recentlySent st' = recentlySent st"
proof -
  obtain res c' sent where f: "fetchProof (proof_net env) (cache st) (proof_now env) [a] = (res, c', sent)"
    by (cases "fetchProof (proof_net env) (cache st) (proof_now env) [a]")
  have "st' = st\<lparr>cache := c'\<rparr>"
  proof (cases res)
    case (Inl err)
    with assms f show ?thesis by (simp add: try_block_def)
  next
    case (Inr pf)
    show ?thesis
    proof (cases "kind = ''entry'' \<or> kind = ''exit''")
      case False
      with Inr assms f show ?thesis by (simp add: try_block_def)
    next
      case True
      with Inr assms f show ?thesis
        by (cases "send_tx env"; cases "wait_tx env") (simp_all add: try_block_def Let_def)
    qed
  qed
  then show ?thesis by simp
qed

lemma executeOnchain_blocked:
  assumes "now env - (case recentlySent st (kind, i) of None \<Rightarrow> 0 | Some t \<Rightarrow> t) < DEDUP_MS cfg"
  shows "executeOnchain cfg st kind i a env = (Inr (), st, [])"
  using assms by (simp add: executeOnchain_def)

lemma executeOnchain_passed:
  assumes nb: "\<not> now env - (case recentlySent st (kind, i) of None \<Rightarrow> 0 | Some t \<Rightarrow> t) < DEDUP_MS cfg"
    and run: "executeOnchain cfg st kind i a env = (r, st', tr)"
  shows "recentlySent st' = (recentlySent st)((kind, i) \<mapsto> now env)"
proof -
  let ?st0 = "st\<lparr>recentlySent := (recentlySent st)((kind, i) \<mapsto> now env)\<rparr>"
  obtain ad st1 tr1 where ac:
    "(if kind = ''entry'' then admission_check cfg ?st0 i env else (Proceed, ?st0, [])) = (ad, st1, tr1)"
    by (cases "if kind = ''entry'' then admission_check cfg ?st0 i env else (Proceed, ?st0, [])")
  have r1: "recentlySent st1 = (recentlySent st)((kind, i) \<mapsto> now env)"
  proof (cases "kind = ''entry''")
    case True
    with ac admission_check_facts[of cfg ?st0 i env ad st1 tr1] show ?thesis by simp
  next
    case False
    with ac show ?thesis by auto
  qed
  obtain r2 st2 tr2 where tb: "try_block st1 kind i a env = (r2, st2, tr2)"
    by (cases "try_block st1 kind i a env")
  from try_block_recentlySent[OF tb] r1
  have r2: "recentlySent st2 = (recentlySent st)((kind, i) \<mapsto> now env)" by simp
  from nb run ac tb r1 r2 show ?thesis
    unfolding executeOnchain_def Let_def
    by (cases ad; cases r2) auto
qed

lemma executeOnchain_entry_admission:
  assumes nb: "\<not> now env - (case recentlySent st (''entry'', i) of None \<Rightarrow> 0 | Some t \<Rightarrow> t) < DEDUP_MS cfg"
    and run: "executeOnchain cfg st ''entry'' i a env = (r, st', tr)"
    and ac: "admission_check cfg (st\<lparr>recentlySent := (recentlySent st)((''entry'', i) \<mapsto> now env)\<rparr>) i env
               = (Skipped, st1, tr1)"
  shows "r = Inr () \<and> st' = st1 \<and> tr = tr1"
  using nb run ac unfolding executeOnchain_def Let_def by simp

lemma exec_call_blocked:
  "dedup_blocked cfg st c \<Longrightarrow> exec_call cfg st c = (Inr (), st, [])"
  unfolding dedup_blocked_def exec_call_def by (rule executeOnchain_blocked)

lemma exec_call_passed:
  "\<not> dedup_blocked cfg st c \<Longrightarrow> exec_call cfg st c = (r, st', tr) \<Longrightarrow>
     recentlySent st' = (recentlySent st)((c_kind c, c_tradeId c) \<mapsto> now (c_env c))"
  unfolding dedup_blocked_def exec_call_def by (rule executeOnchain_passed)

lemma exec_call_keeps_floor:
  assumes "recentlySent st k = Some t" and "lo \<le> t" and "lo \<le> now (c_env c)"
    and "exec_call cfg st c = (r, st', tr)"
  shows "\<exists>t'. recentlySent st' k = Some t' \<and> lo \<le> t'"
proof (cases "dedup_blocked cfg st c")
  case True
  from exec_call_blocked[OF True] assms show ?thesis by simp
next
  case False
  from exec_call_passed[OF False assms(4)] assms(1-3) show ?thesis by simp
qed

lemma run_calls_keeps_floor:
  assumes "recentlySent st k = Some t" and "lo \<le> t"
    and "\<forall>c \<in> set cs. lo \<le> now (c_env c)"
    and "run_calls cfg st cs = (st', trs)"
  shows "\<exists>t'. recentlySent st' k = Some t' \<and> lo \<le> t'"
  using assms
proof (induction cs arbitrary: st t st' trs)
  case Nil
  then show ?case by simp
next
  case (Cons c cs)
  obtain r st1 tr where e: "exec_call cfg st c = (r, st1, tr)" by (cases "exec_call cfg st c")
  obtain st2 trs2 where rc: "run_calls cfg st1 cs = (st2, trs2)" by (cases "run_calls cfg st1 cs")
  from Cons.prems(3) have lo: "lo \<le> now (c_env c)" "\<forall>c \<in> set cs. lo \<le> now (c_env c)" by simp_all
  from exec_call_keeps_floor[OF Cons.prems(1,2) lo(1) e]
  obtain t1 where t1: "recentlySent st1 k = Some t1" "lo \<le> t1" by blast
  from Cons.prems(4) e rc have "st' = st2" by simp
  with Cons.IH[OF t1 lo(2) rc] show ?case by simp
qed

lemma blocked_within_window:
  assumes "\<not> dedup_blocked cfg st A" and "exec_call cfg st A = (rA, stA, trA)"
    and "run_calls cfg stA mid = (stM, trs)"
    and "\<forall>c \<in> set mid. now (c_env A) \<le> now (c_env c)"
    and "c_kind B = c_kind A" and "c_tradeId B = c_tradeId A"
    and "now (c_env B) - now (c_env A) < DEDUP_MS cfg"
  shows "recentlySent stA (c_kind A, c_tradeId A) = Some (now (c_env A)) \<and>
         exec_call cfg stM B = (Inr (), stM, [])"
proof -
  from exec_call_passed[OF assms(1,2)]
  have a: "recentlySent stA (c_kind A, c_tradeId A) = Some (now (c_env A))" by simp
  from run_calls_keeps_floor[OF a _ assms(4,3)]
  obtain t' where t': "recentlySent stM (c_kind A, c_tradeId A) = Some t'" "now (c_env A) \<le> t'"
    by auto
  with assms(5-7) have "dedup_blocked cfg stM B" by (simp add: dedup_blocked_def)
  from exec_call_blocked[OF this] a show ?thesis by simp
qed

text \<open>
  Claim C3, as amended. Let a call \<open>A\<close> of \<^verbatim>\<open>executeOnchain\<close> pass the dedup check,
  let any calls \<open>mid\<close> follow it, none starting before \<open>A\<close>, and let a call \<open>B\<close>
  with the kind and trade id of \<open>A\<close> start less than the dedup window after \<open>A\<close>.
  Then \<open>B\<close> returns at once: it does nothing downstream (no wallet, no proof, no
  ledger call, no event at all) and leaves the state as it is.
\<close>

theorem dedup_within_window:
  assumes "\<not> dedup_blocked cfg st A" and "exec_call cfg st A = (rA, stA, trA)"
    and "run_calls cfg stA mid = (stM, trs)"
    and "\<forall>c \<in> set mid. now (c_env A) \<le> now (c_env c)"
    and "c_kind B = c_kind A" and "c_tradeId B = c_tradeId A"
    and "now (c_env B) - now (c_env A) < DEDUP_MS cfg"
  shows "exec_call cfg stM B = (Inr (), stM, [])"
  using blocked_within_window[OF assms] by simp

text \<open>
  Claim C4. Let an entry attempt pass the dedup check and let \<open>locked\<close> be the amount
  that \<^verbatim>\<open>getTradeLockedE6\<close> reads for its trade. If \<open>locked\<close> is zero, the attempt
  returns without acquiring a wallet, fetching a proof or calling the ledger, and it
  calls \<^verbatim>\<open>resyncBatcher.enqueue\<close> with the trade id, which puts a positive id into
  the pending set. If \<open>locked\<close> is not zero and the free capital read is strictly
  less, the attempt returns without any of the three downstream actions and without
  calling \<^verbatim>\<open>enqueue\<close>: the pending set is as before.
\<close>

theorem admission_control:
  assumes "\<not> now env - (case recentlySent st (''entry'', i) of None \<Rightarrow> 0 | Some t \<Rightarrow> t) < DEDUP_MS cfg"
    and "executeOnchain cfg st ''entry'' i a env = (r, st', tr)"
    and "fst (getTradeLockedE6 st i env) = Inr locked"
  shows "(locked = 0 \<longrightarrow>
            r = Inr () \<and> (\<forall>ev \<in> set tr. \<not> downstream ev) \<and> ResyncEnqueue i \<in> set tr \<and>
            (0 < i \<longrightarrow> i \<in> pending st'))
       \<and> (locked \<noteq> 0 \<and> fst (getLpFreeCapitalE6 cfg st env) = Inr free \<and> int free < locked \<longrightarrow>
            r = Inr () \<and> (\<forall>ev \<in> set tr. \<not> downstream ev) \<and> ResyncEnqueue i \<notin> set tr \<and>
            pending st' = pending st)"
proof -
  let ?st0 = "st\<lparr>recentlySent := (recentlySent st)((''entry'', i) \<mapsto> now env)\<rparr>"
  obtain ad st1 tr1 where ac: "admission_check cfg ?st0 i env = (ad, st1, tr1)"
    by (cases "admission_check cfg ?st0 i env")
  note nd = admission_check_facts[OF ac]
  have l0: "fst (getTradeLockedE6 ?st0 i env) = Inr locked"
    using getTradeLockedE6_fst[of ?st0 st i env] assms(3) by simp
  have f0: "fst (getLpFreeCapitalE6 cfg ?st0 env) = fst (getLpFreeCapitalE6 cfg st env)"
    by (rule getLpFreeCapitalE6_fst) simp_all
  have z: "r = Inr () \<and> (\<forall>ev \<in> set tr. \<not> downstream ev) \<and> ResyncEnqueue i \<in> set tr \<and>
            (0 < i \<longrightarrow> i \<in> pending st')" if "locked = 0"
  proof -
    from admission_check_zero[OF ac l0] that
    have s: "ad = Skipped" "ResyncEnqueue i \<in> set tr1"
      "pending st1 = (if i \<le> 0 then pending ?st0 else insert i (pending ?st0))" by simp_all
    from executeOnchain_entry_admission[OF assms(1,2) ac[unfolded s(1)]] s nd
    show ?thesis by auto
  qed
  have n: "r = Inr () \<and> (\<forall>ev \<in> set tr. \<not> downstream ev) \<and> ResyncEnqueue i \<notin> set tr \<and>
            pending st' = pending st"
    if "locked \<noteq> 0" "fst (getLpFreeCapitalE6 cfg st env) = Inr free" "int free < locked"
  proof -
    from admission_check_short[OF ac l0 that(1) _ that(3)] f0 that(2)
    have s: "ad = Skipped" "ResyncEnqueue i \<notin> set tr1" "pending st1 = pending ?st0" by simp_all
    from executeOnchain_entry_admission[OF assms(1,2) ac[unfolded s(1)]] s nd
    show ?thesis by auto
  qed
  from z n show ?thesis by blast
qed

text \<open>
  Claim C10. Let an entry attempt \<open>A\<close> pass the dedup check and then be skipped by
  the admission check, for a locked amount that is not positive or for free capital
  below the locked amount. Then \<open>A\<close> does nothing downstream, its start time is
  recorded in \<^verbatim>\<open>recentlySent\<close> all the same, and every call \<open>B\<close> for the same kind
  and trade id that starts less than the dedup window after \<open>A\<close> (with any calls
  in between, none starting before \<open>A\<close>) returns at once without any event.
\<close>

theorem skipped_entry_consumes_window:
  assumes "\<not> dedup_blocked cfg st A" and "c_kind A = ''entry''"
    and "fst (getTradeLockedE6 st (c_tradeId A) (c_env A)) = Inr locked"
    and "locked \<le> 0 \<or> (fst (getLpFreeCapitalE6 cfg st (c_env A)) = Inr free \<and> int free < locked)"
    and "exec_call cfg st A = (rA, stA, trA)"
    and "run_calls cfg stA mid = (stM, trs)"
    and "\<forall>c \<in> set mid. now (c_env A) \<le> now (c_env c)"
    and "c_kind B = c_kind A" and "c_tradeId B = c_tradeId A"
    and "now (c_env B) - now (c_env A) < DEDUP_MS cfg"
  shows "(\<forall>ev \<in> set trA. \<not> downstream ev) \<and>
         recentlySent stA (c_kind A, c_tradeId A) = Some (now (c_env A)) \<and>
         exec_call cfg stM B = (Inr (), stM, [])"
proof -
  let ?i = "c_tradeId A" and ?env = "c_env A"
  let ?st0 = "st\<lparr>recentlySent := (recentlySent st)((''entry'', ?i) \<mapsto> now ?env)\<rparr>"
  from assms(1,2) have nb:
    "\<not> now ?env - (case recentlySent st (''entry'', ?i) of None \<Rightarrow> 0 | Some t \<Rightarrow> t) < DEDUP_MS cfg"
    by (simp add: dedup_blocked_def)
  from assms(2,5) have run: "executeOnchain cfg st ''entry'' ?i (c_asset A) ?env = (rA, stA, trA)"
    by (simp add: exec_call_def)
  obtain ad st1 tr1 where ac: "admission_check cfg ?st0 ?i ?env = (ad, st1, tr1)"
    by (cases "admission_check cfg ?st0 ?i ?env")
  have l0: "fst (getTradeLockedE6 ?st0 ?i ?env) = Inr locked"
    using getTradeLockedE6_fst[of ?st0 st ?i ?env] assms(3) by simp
  have f0: "fst (getLpFreeCapitalE6 cfg ?st0 ?env) = fst (getLpFreeCapitalE6 cfg st ?env)"
    by (rule getLpFreeCapitalE6_fst) simp_all
  have "ad = Skipped"
  proof (cases "locked \<le> 0")
    case True
    from admission_check_zero[OF ac l0 True] show ?thesis by simp
  next
    case False
    with assms(4) have "fst (getLpFreeCapitalE6 cfg st ?env) = Inr free" "int free < locked"
      by simp_all
    with admission_check_short[OF ac l0, of free] f0 False show ?thesis by simp
  qed
  with executeOnchain_entry_admission[OF nb run] ac admission_check_facts[OF ac]
  have "\<forall>ev \<in> set trA. \<not> downstream ev" by simp
  with blocked_within_window[OF assms(1,5,6,7,8,9,10)] show ?thesis by simp
qed

lemma exit_call_simps:
  "c_kind (exit_call t) = ''exit''" "c_tradeId (exit_call t) = 7" "c_asset (exit_call t) = 5000"
  "now (c_env (exit_call t)) = t"
  by (simp_all add: exit_call_def example_call_env_def)

lemma entry_call_simps:
  "c_kind (entry_call t l) = ''entry''" "c_tradeId (entry_call t l) = 7"
  "c_asset (entry_call t l) = 5000" "now (c_env (entry_call t l)) = t"
  "http_trade (c_env (entry_call t l)) = Inr (Some l)"
  "lp_now (c_env (entry_call t l)) = t"
  "vault_lpFreeCapital (c_env (entry_call t l)) = Inr 500000"
  by (simp_all add: entry_call_def example_call_env_def)

lemma initial_not_blocked:
  "15000 \<le> now (c_env c) \<Longrightarrow> \<not> dedup_blocked default_config initial_state c"
  by (simp add: dedup_blocked_def default_config_def initial_state_def)

theorem dedup_within_window_witness:
  "\<not> dedup_blocked default_config initial_state (exit_call 1000000) \<and>
   now (c_env (exit_call 1000000)) \<le> now (c_env (exit_call 1005000)) \<and>
   c_kind (exit_call 1010000) = c_kind (exit_call 1000000) \<and>
   c_tradeId (exit_call 1010000) = c_tradeId (exit_call 1000000) \<and>
   now (c_env (exit_call 1010000)) - now (c_env (exit_call 1000000)) < DEDUP_MS default_config \<and>
   exec_call default_config
     (fst (run_calls default_config
             (fst (snd (exec_call default_config initial_state (exit_call 1000000))))
             [exit_call 1005000]))
     (exit_call 1010000) =
   (Inr (),
    fst (run_calls default_config
           (fst (snd (exec_call default_config initial_state (exit_call 1000000))))
           [exit_call 1005000]),
    [])"
proof -
  have h1: "\<not> dedup_blocked default_config initial_state (exit_call 1000000)"
    by (rule initial_not_blocked) (simp add: exit_call_simps)
  have h2: "exec_call default_config initial_state (exit_call 1000000) =
      (fst (exec_call default_config initial_state (exit_call 1000000)),
       fst (snd (exec_call default_config initial_state (exit_call 1000000))),
       snd (snd (exec_call default_config initial_state (exit_call 1000000))))"
    by simp
  have h3: "run_calls default_config
      (fst (snd (exec_call default_config initial_state (exit_call 1000000)))) [exit_call 1005000] =
      (fst (run_calls default_config
             (fst (snd (exec_call default_config initial_state (exit_call 1000000))))
             [exit_call 1005000]),
       snd (run_calls default_config
             (fst (snd (exec_call default_config initial_state (exit_call 1000000))))
             [exit_call 1005000]))"
    by simp
  have h4: "\<forall>c \<in> set [exit_call 1005000]. now (c_env (exit_call 1000000)) \<le> now (c_env c)"
    by (simp add: exit_call_simps)
  have h5: "c_kind (exit_call 1010000) = c_kind (exit_call 1000000)"
    "c_tradeId (exit_call 1010000) = c_tradeId (exit_call 1000000)"
    "now (c_env (exit_call 1010000)) - now (c_env (exit_call 1000000)) < DEDUP_MS default_config"
    by (simp_all add: exit_call_simps default_config_def)
  from dedup_within_window [OF h1 h2 h3 h4 h5] h1 h4 h5 show ?thesis by simp
qed

lemma makeKey_5000: "makeKey [5000] = ''5000''"
  by (simp add: makeKey_def string_of_int_def digit_char_def)

lemma fetch_5000:
  "fetchProof example_net Map.empty t [5000] =
     (Inr ''0xab'', [''5000'' \<mapsto> \<lparr>proof_str = ''0xab'', ts = t\<rparr>], [[5000]])"
  by (simp add: fetchProof_def getProof_def example_net_def makeKey_5000 normalizeProof_def Let_def)

lemma exec_exit_first:
  "exec_call default_config initial_state (exit_call 1000000) =
     (Inr (),
      initial_state\<lparr>recentlySent := [(''exit'', 7) \<mapsto> 1000000],
                    cache := [''5000'' \<mapsto> \<lparr>proof_str = ''0xab'', ts = 1000000\<rparr>]\<rparr>,
      [WalletAcquire, FetchProof [5000], ProofRequest [5000],
       ExecuteStopOrTakeProfit 7 ''0xab'', TxWait])"
  by (simp add: exec_call_def executeOnchain_def exit_call_def example_call_env_def
      default_config_def initial_state_def try_block_def fetch_5000 Let_def)

lemma fetch_5000_stale:
  "fetchProof example_net [''5000'' \<mapsto> \<lparr>proof_str = ''0xab'', ts = 1000000\<rparr>] 1020000 [5000] =
     (Inr ''0xab'', [''5000'' \<mapsto> \<lparr>proof_str = ''0xab'', ts = 1020000\<rparr>], [[5000]])"
  by (simp add: fetchProof_def getProof_def example_net_def makeKey_5000 normalizeProof_def Let_def)

lemma exec_exit_second:
  "exec_call default_config
     (initial_state\<lparr>recentlySent := [(''exit'', 7) \<mapsto> 1000000],
                    cache := [''5000'' \<mapsto> \<lparr>proof_str = ''0xab'', ts = 1000000\<rparr>]\<rparr>)
     (exit_call 1010000) =
     (Inr (),
      initial_state\<lparr>recentlySent := [(''exit'', 7) \<mapsto> 1000000],
                    cache := [''5000'' \<mapsto> \<lparr>proof_str = ''0xab'', ts = 1000000\<rparr>]\<rparr>,
      [])"
  by (simp add: exec_call_def executeOnchain_def exit_call_def example_call_env_def
      default_config_def initial_state_def Let_def)

lemma exec_exit_third:
  "exec_call default_config
     (initial_state\<lparr>recentlySent := [(''exit'', 7) \<mapsto> 1000000],
                    cache := [''5000'' \<mapsto> \<lparr>proof_str = ''0xab'', ts = 1000000\<rparr>]\<rparr>)
     (exit_call 1020000) =
     (Inr (),
      initial_state\<lparr>recentlySent := [(''exit'', 7) \<mapsto> 1020000],
                    cache := [''5000'' \<mapsto> \<lparr>proof_str = ''0xab'', ts = 1020000\<rparr>]\<rparr>,
      [WalletAcquire, FetchProof [5000], ProofRequest [5000],
       ExecuteStopOrTakeProfit 7 ''0xab'', TxWait])"
  by (simp add: exec_call_def executeOnchain_def exit_call_def example_call_env_def
      default_config_def initial_state_def try_block_def fetch_5000_stale Let_def)

text \<open>
  Claim C3 as stated fails: the window is counted from the last call that passed the
  check, not from the last call. Of three exit calls for trade 7 at 1000000, 1010000
  and 1020000 ms the second is skipped, and the third, 10000 ms after the second and
  so within the window of 15000 ms, acquires a wallet, fetches a proof and submits.
\<close>

theorem dedup_after_skipped_call:
  "c_kind (exit_call 1010000) = c_kind (exit_call 1020000) \<and>
   c_tradeId (exit_call 1010000) = c_tradeId (exit_call 1020000) \<and>
   now (c_env (exit_call 1020000)) - now (c_env (exit_call 1010000)) < DEDUP_MS default_config \<and>
   snd (run_calls default_config initial_state
          [exit_call 1000000, exit_call 1010000, exit_call 1020000]) =
     [[WalletAcquire, FetchProof [5000], ProofRequest [5000],
       ExecuteStopOrTakeProfit 7 ''0xab'', TxWait],
      [],
      [WalletAcquire, FetchProof [5000], ProofRequest [5000],
       ExecuteStopOrTakeProfit 7 ''0xab'', TxWait]]"
proof -
  have "snd (run_calls default_config initial_state
          [exit_call 1000000, exit_call 1010000, exit_call 1020000]) =
     [[WalletAcquire, FetchProof [5000], ProofRequest [5000],
       ExecuteStopOrTakeProfit 7 ''0xab'', TxWait],
      [],
      [WalletAcquire, FetchProof [5000], ProofRequest [5000],
       ExecuteStopOrTakeProfit 7 ''0xab'', TxWait]]"
    by (simp add: exec_exit_first exec_exit_second exec_exit_third)
  moreover have "now (c_env (exit_call 1020000)) - now (c_env (exit_call 1010000))
      < DEDUP_MS default_config"
    by (simp add: exit_call_simps default_config_def)
  ultimately show ?thesis by (simp add: exit_call_simps)
qed

lemma js_BigInt_examples: "js_BigInt ''0'' = Some 0" "js_BigInt ''1000000'' = Some 1000000"
  by (simp_all add: js_BigInt_def trim_def is_ws_def signed_decimal_def parse_radix_def digit_of_def)

lemma locked_examples:
  "fst (getTradeLockedE6 initial_state 7 (example_call_env t ''0'')) = Inr 0"
  "fst (getTradeLockedE6 initial_state 7 (example_call_env t ''1000000'')) = Inr 1000000"
  by (simp_all add: getTradeLockedE6_def initial_state_def example_call_env_def js_BigInt_examples)

lemma free_example:
  "fst (getLpFreeCapitalE6 default_config initial_state (example_call_env 1000000 l)) = Inr 500000"
  by (simp add: getLpFreeCapitalE6_def initial_state_def example_call_env_def default_config_def)

theorem admission_control_witness:
  "\<not> now (example_call_env 1000000 ''0'') - (case recentlySent initial_state (''entry'', 7) of
          None \<Rightarrow> 0 | Some t \<Rightarrow> t) < DEDUP_MS default_config \<and>
   fst (getTradeLockedE6 initial_state 7 (example_call_env 1000000 ''0'')) = Inr 0 \<and> (0 :: int) < 7 \<and>
   7 \<in> pending (fst (snd (executeOnchain default_config initial_state ''entry'' 7 5000
                            (example_call_env 1000000 ''0'')))) \<and>
   fst (getTradeLockedE6 initial_state 7 (example_call_env 1000000 ''1000000'')) = Inr 1000000 \<and>
   fst (getLpFreeCapitalE6 default_config initial_state (example_call_env 1000000 ''1000000'')) = Inr 500000 \<and>
   int 500000 < 1000000 \<and>
   pending (fst (snd (executeOnchain default_config initial_state ''entry'' 7 5000
                        (example_call_env 1000000 ''1000000'')))) = pending initial_state"
proof -
  have nb: "\<not> now (example_call_env 1000000 l) - (case recentlySent initial_state (''entry'', 7) of
          None \<Rightarrow> 0 | Some t \<Rightarrow> t) < DEDUP_MS default_config" for l
    by (simp add: example_call_env_def initial_state_def default_config_def)
  have e: "executeOnchain default_config initial_state ''entry'' 7 5000 (example_call_env 1000000 l) =
      (fst (executeOnchain default_config initial_state ''entry'' 7 5000 (example_call_env 1000000 l)),
       fst (snd (executeOnchain default_config initial_state ''entry'' 7 5000 (example_call_env 1000000 l))),
       snd (snd (executeOnchain default_config initial_state ''entry'' 7 5000 (example_call_env 1000000 l))))"
    for l by simp
  from admission_control [OF nb e locked_examples(1), of 0]
  have z: "7 \<in> pending (fst (snd (executeOnchain default_config initial_state ''entry'' 7 5000
                            (example_call_env 1000000 ''0''))))" by simp
  from admission_control [OF nb e locked_examples(2), of 500000] free_example
  have n: "pending (fst (snd (executeOnchain default_config initial_state ''entry'' 7 5000
                        (example_call_env 1000000 ''1000000'')))) = pending initial_state" by simp
  from nb z n locked_examples free_example show ?thesis by simp
qed

theorem skipped_entry_consumes_window_witness:
  "\<not> dedup_blocked default_config initial_state (entry_call 1000000 ''0'') \<and>
   c_kind (entry_call 1000000 ''0'') = ''entry'' \<and>
   fst (getTradeLockedE6 initial_state (c_tradeId (entry_call 1000000 ''0''))
          (c_env (entry_call 1000000 ''0''))) = Inr 0 \<and>
   now (c_env (entry_call 1000000 ''0'')) \<le> now (c_env (entry_call 1007000 ''0'')) \<and>
   c_kind (entry_call 1014999 ''0'') = c_kind (entry_call 1000000 ''0'') \<and>
   c_tradeId (entry_call 1014999 ''0'') = c_tradeId (entry_call 1000000 ''0'') \<and>
   now (c_env (entry_call 1014999 ''0'')) - now (c_env (entry_call 1000000 ''0'')) < DEDUP_MS default_config \<and>
   exec_call default_config
     (fst (run_calls default_config
             (fst (snd (exec_call default_config initial_state (entry_call 1000000 ''0''))))
             [entry_call 1007000 ''0'']))
     (entry_call 1014999 ''0'') =
   (Inr (),
    fst (run_calls default_config
           (fst (snd (exec_call default_config initial_state (entry_call 1000000 ''0''))))
           [entry_call 1007000 ''0'']),
    [])"
proof -
  let ?A = "entry_call 1000000 ''0''" and ?M = "entry_call 1007000 ''0''"
  let ?B = "entry_call 1014999 ''0''"
  have h1: "\<not> dedup_blocked default_config initial_state ?A"
    by (rule initial_not_blocked) (simp add: entry_call_simps)
  have h2: "c_kind ?A = ''entry''" by (simp add: entry_call_simps)
  have h3: "fst (getTradeLockedE6 initial_state (c_tradeId ?A) (c_env ?A)) = Inr 0"
    using locked_examples(1)[of 1000000] by (simp add: entry_call_def)
  have h4: "(0 :: int) \<le> 0 \<or>
      (fst (getLpFreeCapitalE6 default_config initial_state (c_env ?A)) = Inr 0 \<and> int 0 < 0)"
    by simp
  have h5: "exec_call default_config initial_state ?A =
      (fst (exec_call default_config initial_state ?A),
       fst (snd (exec_call default_config initial_state ?A)),
       snd (snd (exec_call default_config initial_state ?A)))" by simp
  have h6: "run_calls default_config (fst (snd (exec_call default_config initial_state ?A))) [?M] =
      (fst (run_calls default_config (fst (snd (exec_call default_config initial_state ?A))) [?M]),
       snd (run_calls default_config (fst (snd (exec_call default_config initial_state ?A))) [?M]))"
    by simp
  have h7: "\<forall>c \<in> set [?M]. now (c_env ?A) \<le> now (c_env c)" by (simp add: entry_call_simps)
  have h8: "c_kind ?B = c_kind ?A" "c_tradeId ?B = c_tradeId ?A"
    "now (c_env ?B) - now (c_env ?A) < DEDUP_MS default_config"
    by (simp_all add: entry_call_simps default_config_def)
  from skipped_entry_consumes_window [OF h1 h2 h3 h4 h5 h6 h7 h8] h1 h2 h3 h7 h8
  show ?thesis by simp
qed


end
